theory Spec2Isabelle
  imports Complex_Main
begin

section \<open>Error analysis of the ADP notebook (ADP.ipynb, cell 08d8ad58)\<close>

text \<open>
  The energy components loaded from the results file are one-dimensional NumPy arrays of
  floats. They are modelled as lists of reals: every element is a finite number and
  arithmetic is exact, so rounding, infinities and NaN elements of the input are outside
  the model. The one NaN the functions themselves can produce (the mean of an array with
  no element) is kept as a value of its own.
\<close>

datatype error = ValueError | KeyError | TypeError | OpenMMException

datatype npfloat = Fin real | NaN

text \<open>
  NumPy's binary operators on two one-dimensional arrays: shapes \<open>(m,)\<close> and \<open>(n,)\<close>
  combine elementwise when \<open>m = n\<close>; an array of length one is broadcast against the
  other; any other pair of shapes raises ValueError (operands could not be broadcast
  together).
\<close>

definition np_binop :: "(real \<Rightarrow> real \<Rightarrow> real) \<Rightarrow> real list \<Rightarrow> real list \<Rightarrow> error + real list" where
  "np_binop f a b =
     (if length a = length b then Inr (map2 f a b)
      else if length a = 1 then Inr (map (\<lambda>y. f (hd a) y) b)
      else if length b = 1 then Inr (map (\<lambda>x. f x (hd b)) a)
      else Inl ValueError)"

definition np_sub :: "real list \<Rightarrow> real list \<Rightarrow> error + real list" where
  "np_sub = np_binop (\<lambda>x y. x - y)"

definition np_add :: "real list \<Rightarrow> real list \<Rightarrow> error + real list" where
  "np_add = np_binop (\<lambda>x y. x + y)"

text \<open>\<open>d**2\<close> on an array squares each element.\<close>

definition np_square :: "real list \<Rightarrow> real list" where
  "np_square d = map (\<lambda>x. x ^ 2) d"

text \<open>
  \<open>np.mean\<close> of an array with no element is NaN (NumPy warns and returns it, nothing is
  raised); otherwise the sum divided by the number of elements.
\<close>

definition np_mean :: "real list \<Rightarrow> npfloat" where
  "np_mean xs = (if xs = [] then NaN else Fin (sum_list xs / real (length xs)))"

text \<open>\<open>np.sqrt\<close> of a scalar: NaN for NaN and for a negative number.\<close>

fun np_sqrt :: "npfloat \<Rightarrow> npfloat" where
  "np_sqrt NaN = NaN"
| "np_sqrt (Fin x) = (if x < 0 then NaN else Fin (sqrt x))"

text \<open>
  \<^verbatim>\<open>
  def get_rmse(a, b):
      return np.sqrt(np.mean((a-b)**2))
  \<close>
\<close>

definition get_rmse :: "real list \<Rightarrow> real list \<Rightarrow> error + npfloat" where
  "get_rmse a b =
     (case np_sub a b of
        Inl e \<Rightarrow> Inl e
      | Inr d \<Rightarrow> Inr (np_sqrt (np_mean (np_square d))))"

text \<open>
  The loaded results file is a dictionary from names to arrays; \<open>data['name']\<close> raises
  KeyError for a name that is absent.
\<close>

type_synonym data = "string \<rightharpoonup> real list"

definition getitem :: "data \<Rightarrow> string \<Rightarrow> error + real list" where
  "getitem d key = (case d key of None \<Rightarrow> Inl KeyError | Some v \<Rightarrow> Inr v)"

text \<open>Sequencing of computations that may raise: the first error ends the evaluation.\<close>

definition bind :: "error + 'a \<Rightarrow> ('a \<Rightarrow> error + 'b) \<Rightarrow> error + 'b" where
  "bind m f = (case m of Inl e \<Rightarrow> Inl e | Inr x \<Rightarrow> f x)"

text \<open>
  \<^verbatim>\<open>
  def get_static_rmse(data):
      return get_rmse(data['E_static_qm'], data['E_static_emle'])

  def get_induced_rmse(data):
      return get_rmse(data['E_induced_qm'], data['E_induced_emle'])

  def get_total_rmse(data):
      return get_rmse(data['E_static_qm'] + data['E_induced_qm'],
                      data['E_static_emle'] + data['E_induced_emle'])
  \<close>
  Python evaluates the arguments left to right, each subscript before the sum it feeds.
\<close>

definition get_static_rmse :: "data \<Rightarrow> error + npfloat" where
  "get_static_rmse d =
     bind (getitem d ''E_static_qm'') (\<lambda>a.
     bind (getitem d ''E_static_emle'') (\<lambda>b.
     get_rmse a b))"

definition get_induced_rmse :: "data \<Rightarrow> error + npfloat" where
  "get_induced_rmse d =
     bind (getitem d ''E_induced_qm'') (\<lambda>a.
     bind (getitem d ''E_induced_emle'') (\<lambda>b.
     get_rmse a b))"

definition get_total_rmse :: "data \<Rightarrow> error + npfloat" where
  "get_total_rmse d =
     bind (getitem d ''E_static_qm'') (\<lambda>sq.
     bind (getitem d ''E_induced_qm'') (\<lambda>iq.
     bind (np_add sq iq) (\<lambda>qm.
     bind (getitem d ''E_static_emle'') (\<lambda>se.
     bind (getitem d ''E_induced_emle'') (\<lambda>ie.
     bind (np_add se ie) (\<lambda>emle.
     get_rmse qm emle))))))"

text \<open>
  The comparison \<open>x == y\<close> of two float results: NaN is equal to nothing, itself
  included; a computation that raised has no value to compare.
\<close>

fun py_eq :: "error + npfloat \<Rightarrow> error + npfloat \<Rightarrow> bool" where
  "py_eq (Inr (Fin x)) (Inr (Fin y)) = (x = y)"
| "py_eq _ _ = False"

text \<open>
  The quadrature combination \<open>sqrt(s**2 + i**2)\<close> of two float results; NaN propagates
  through the arithmetic.
\<close>

fun quadrature :: "npfloat \<Rightarrow> npfloat \<Rightarrow> npfloat" where
  "quadrature (Fin s) (Fin i) = np_sqrt (Fin (s ^ 2 + i ^ 2))"
| "quadrature _ _ = NaN"

definition quadrature_rmse :: "data \<Rightarrow> error + npfloat" where
  "quadrature_rmse d =
     bind (get_static_rmse d) (\<lambda>s.
     bind (get_induced_rmse d) (\<lambda>i.
     Inr (quadrature s i)))"

text \<open>A results table with the four arrays the analysis reads.\<close>

definition mk_data :: "real list \<Rightarrow> real list \<Rightarrow> real list \<Rightarrow> real list \<Rightarrow> data" where
  "mk_data sq iq se ie =
     [''E_static_qm'' \<mapsto> sq, ''E_induced_qm'' \<mapsto> iq,
      ''E_static_emle'' \<mapsto> se, ''E_induced_emle'' \<mapsto> ie]"

text \<open>
  The specification's wording of the error measure: the square root of the mean of the
  elementwise squared differences of two sequences of equal length. The mean of no
  number is undefined.
\<close>

definition mean_spec :: "real list \<Rightarrow> real option" where
  "mean_spec xs = (if xs = [] then None else Some (sum_list xs / real (length xs)))"

definition rmse_spec :: "real list \<Rightarrow> real list \<Rightarrow> real option" where
  "rmse_spec a b = map_option sqrt (mean_spec (map2 (\<lambda>x y. (x - y) ^ 2) a b))"

definition of_spec :: "real option \<Rightarrow> npfloat" where
  "of_spec r = (case r of None \<Rightarrow> NaN | Some x \<Rightarrow> Fin x)"

section \<open>Units (AbyU2.ipynb, lines 62 to 64)\<close>

text \<open>
  Modelled from the spec: the units of \<open>openmm.unit\<close>, a library that is not part of the
  sources. A unit is its size in the MD unit system (energy in kJ/mol, length in nm)
  and its dimension, the exponents of energy per amount and of length. The sizes are
  the conversion factors the specification names: 1 kcal = 4.184 kJ and
  1 angstrom = 0.1 nm.
\<close>

record unit =
  factor :: real
  energy_dim :: int
  length_dim :: int

definition kilojoule_per_mole :: unit where
  "kilojoule_per_mole = \<lparr>factor = 1, energy_dim = 1, length_dim = 0\<rparr>"

definition kilocalorie_per_mole :: unit where
  "kilocalorie_per_mole = \<lparr>factor = 4.184, energy_dim = 1, length_dim = 0\<rparr>"

definition nanometer :: unit where
  "nanometer = \<lparr>factor = 1, energy_dim = 0, length_dim = 1\<rparr>"

definition angstrom :: unit where
  "angstrom = \<lparr>factor = 0.1, energy_dim = 0, length_dim = 1\<rparr>"

text \<open>\<open>u / v\<close> and \<open>u ** n\<close> on units.\<close>

definition unit_div :: "unit \<Rightarrow> unit \<Rightarrow> unit" where
  "unit_div u v = \<lparr>factor = factor u / factor v,
                   energy_dim = energy_dim u - energy_dim v,
                   length_dim = length_dim u - length_dim v\<rparr>"

definition unit_pow :: "unit \<Rightarrow> nat \<Rightarrow> unit" where
  "unit_pow u n = \<lparr>factor = factor u ^ n,
                   energy_dim = energy_dim u * int n,
                   length_dim = length_dim u * int n\<rparr>"

text \<open>A quantity is a number with a unit: \<open>x * u\<close> makes one, \<open>q / u\<close> divides its unit.\<close>

record quantity =
  qvalue :: real
  qunit :: unit

definition times_unit :: "real \<Rightarrow> unit \<Rightarrow> quantity" where
  "times_unit x u = \<lparr>qvalue = x, qunit = u\<rparr>"

definition quantity_div :: "quantity \<Rightarrow> unit \<Rightarrow> quantity" where
  "quantity_div q u = \<lparr>qvalue = qvalue q, qunit = unit_div (qunit q) u\<rparr>"

text \<open>
  \<open>q.value_in_unit(u)\<close>: the number of units \<open>u\<close> in \<open>q\<close>; a unit of another dimension
  raises.
\<close>

definition value_in_unit :: "quantity \<Rightarrow> unit \<Rightarrow> error + real" where
  "value_in_unit q u =
     (if energy_dim (qunit q) = energy_dim u \<and> length_dim (qunit q) = length_dim u
      then Inr (qvalue q * factor (qunit q) / factor u)
      else Inl TypeError)"

text \<open>
  A quantity handed to an OpenMM call in place of a number is taken in the MD unit
  system.
\<close>

definition strip_units :: "quantity \<Rightarrow> real" where
  "strip_units q = qvalue q * factor (qunit q)"

text \<open>
  \<^verbatim>\<open>
  distances = ((2125, 2094, 0.7), (2119, 2087, 0.3))
  k = (125*unit.kilocalorie_per_mole/unit.angstrom**2).value_in_unit(
          unit.kilojoule_per_mole/unit.nanometer**2)
  r0 = 2.5*unit.angstroms
  \<close>
  The second notebook of AbyU2.ipynb is the same cell with 100 in place of 125.
\<close>

definition distances :: "(nat \<times> nat \<times> real) list" where
  "distances = [(2125, 2094, 0.7), (2119, 2087, 0.3)]"

definition force_constant :: "real \<Rightarrow> error + real" where
  "force_constant n =
     value_in_unit (quantity_div (times_unit n kilocalorie_per_mole) (unit_pow angstrom 2))
                   (unit_div kilojoule_per_mole (unit_pow nanometer 2))"

definition k :: "error + real" where
  "k = force_constant 125"

definition r0 :: quantity where
  "r0 = times_unit 2.5 angstrom"

section \<open>The restraint force (AbyU2.ipynb, lines 66 to 76)\<close>

text \<open>
  OpenMM's custom forces take their energy as an algebraic expression in a string. The
  model holds the expression the string is parsed to: \<open>"weight*r"\<close> is a product of two
  variables, and in \<open>"k*(weighted_distance - r0)^2"\<close> the power binds tighter than the
  product.
\<close>

datatype expr =
    Num real
  | Var string
  | Sub expr expr
  | Mul expr expr
  | Pow expr nat

fun expr_vars :: "expr \<Rightarrow> string list" where
  "expr_vars (Num x) = []"
| "expr_vars (Var v) = [v]"
| "expr_vars (Sub a b) = expr_vars a @ expr_vars b"
| "expr_vars (Mul a b) = expr_vars a @ expr_vars b"
| "expr_vars (Pow a n) = expr_vars a"

fun eval :: "(string \<rightharpoonup> real) \<Rightarrow> expr \<Rightarrow> error + real" where
  "eval env (Num x) = Inr x"
| "eval env (Var v) = (case env v of None \<Rightarrow> Inl OpenMMException | Some x \<Rightarrow> Inr x)"
| "eval env (Sub a b) = bind (eval env a) (\<lambda>x. bind (eval env b) (\<lambda>y. Inr (x - y)))"
| "eval env (Mul a b) = bind (eval env a) (\<lambda>x. bind (eval env b) (\<lambda>y. Inr (x * y)))"
| "eval env (Pow a n) = bind (eval env a) (\<lambda>x. Inr (x ^ n))"

type_synonym vec3 = "real \<times> real \<times> real"
type_synonym positions = "vec3 list"

definition distance :: "vec3 \<Rightarrow> vec3 \<Rightarrow> real" where
  "distance p q =
     (case p of (x1, y1, z1) \<Rightarrow> case q of (x2, y2, z2) \<Rightarrow>
        sqrt ((x1 - x2) ^ 2 + (y1 - y2) ^ 2 + (z1 - z2) ^ 2))"

text \<open>
  A CustomBondForce: an energy expression in the bond length \<open>r\<close> and the per-bond
  parameters, and the bonds, each a pair of particle indices with its parameter values.
  Its energy is the sum of the expression over the bonds.
\<close>

record custom_bond_force =
  cbf_energy :: expr
  cbf_params :: "string list"
  cbf_bonds :: "(nat \<times> nat \<times> real list) list"

definition CustomBondForce :: "expr \<Rightarrow> custom_bond_force" where
  "CustomBondForce e = \<lparr>cbf_energy = e, cbf_params = [], cbf_bonds = []\<rparr>"

definition addPerBondParameter :: "custom_bond_force \<Rightarrow> string \<Rightarrow> custom_bond_force" where
  "addPerBondParameter f name = f\<lparr>cbf_params := cbf_params f @ [name]\<rparr>"

definition addBond :: "custom_bond_force \<Rightarrow> nat \<Rightarrow> nat \<Rightarrow> real list \<Rightarrow> custom_bond_force" where
  "addBond f a1 a2 ps = f\<lparr>cbf_bonds := cbf_bonds f @ [(a1, a2, ps)]\<rparr>"

definition bond_energy :: "custom_bond_force \<Rightarrow> positions \<Rightarrow> nat \<times> nat \<times> real list \<Rightarrow> error + real" where
  "bond_energy f pos b =
     (case b of (a1, a2, ps) \<Rightarrow>
        if a1 < length pos \<and> a2 < length pos \<and> length ps = length (cbf_params f)
        then eval ((map_of (zip (cbf_params f) ps))(''r'' \<mapsto> distance (pos ! a1) (pos ! a2)))
                  (cbf_energy f)
        else Inl OpenMMException)"

fun sum_energies :: "(error + real) list \<Rightarrow> error + real" where
  "sum_energies [] = Inr 0"
| "sum_energies (e # es) = bind e (\<lambda>x. bind (sum_energies es) (\<lambda>y. Inr (x + y)))"

definition cbf_total :: "custom_bond_force \<Rightarrow> positions \<Rightarrow> error + real" where
  "cbf_total f pos = sum_energies (map (bond_energy f pos) (cbf_bonds f))"

text \<open>
  \<^verbatim>\<open>
  cv = CustomBondForce("weight*r")
  cv.addPerBondParameter("weight")

  for atom1, atom2, weight in distances:
      cv.addBond(atom1, atom2, [weight])
  \<close>
\<close>

definition make_cv :: "(nat \<times> nat \<times> real) list \<Rightarrow> custom_bond_force" where
  "make_cv ds =
     fold (\<lambda>(atom1, atom2, weight) f. addBond f atom1 atom2 [weight]) ds
          (addPerBondParameter (CustomBondForce (Mul (Var ''weight'') (Var ''r''))) ''weight'')"

definition cv :: custom_bond_force where
  "cv = make_cv distances"

text \<open>
  A CustomCVForce: an energy expression in named collective variables, each the energy
  of a force of its own, and in global parameters, each registered with a default
  value. The values of the global parameters live in the context.
\<close>

record custom_cv_force =
  cvf_energy :: expr
  cvf_cvs :: "(string \<times> custom_bond_force) list"
  cvf_globals :: "(string \<times> real) list"

definition CustomCVForce :: "expr \<Rightarrow> custom_cv_force" where
  "CustomCVForce e = \<lparr>cvf_energy = e, cvf_cvs = [], cvf_globals = []\<rparr>"

definition addCollectiveVariable :: "custom_cv_force \<Rightarrow> string \<Rightarrow> custom_bond_force \<Rightarrow> custom_cv_force" where
  "addCollectiveVariable f name v = f\<lparr>cvf_cvs := cvf_cvs f @ [(name, v)]\<rparr>"

definition addGlobalParameter :: "custom_cv_force \<Rightarrow> string \<Rightarrow> real \<Rightarrow> custom_cv_force" where
  "addGlobalParameter f name v = f\<lparr>cvf_globals := cvf_globals f @ [(name, v)]\<rparr>"

fun cv_values :: "(string \<times> custom_bond_force) list \<Rightarrow> positions \<Rightarrow> error + (string \<times> real) list" where
  "cv_values [] pos = Inr []"
| "cv_values ((name, f) # rest) pos =
     bind (cbf_total f pos) (\<lambda>x. bind (cv_values rest pos) (\<lambda>xs. Inr ((name, x) # xs)))"

definition cvf_total :: "custom_cv_force \<Rightarrow> (string \<rightharpoonup> real) \<Rightarrow> positions \<Rightarrow> error + real" where
  "cvf_total f params pos =
     bind (cv_values (cvf_cvs f) pos) (\<lambda>vals. eval (params ++ map_of vals) (cvf_energy f))"

text \<open>
  \<^verbatim>\<open>
  energy_expression = "k*(weighted_distance - r0)^2"
  restraint_force = openmm.CustomCVForce(energy_expression)
  restraint_force.addCollectiveVariable("weighted_distance", cv)
  restraint_force.addGlobalParameter("k", k)
  restraint_force.addGlobalParameter("r0", r0)
  \<close>
\<close>

definition energy_expression :: expr where
  "energy_expression =
     Mul (Var ''k'') (Pow (Sub (Var ''weighted_distance'') (Var ''r0'')) 2)"

definition make_restraint :: "custom_bond_force \<Rightarrow> real \<Rightarrow> quantity \<Rightarrow> custom_cv_force" where
  "make_restraint c kv r =
     addGlobalParameter
       (addGlobalParameter
          (addCollectiveVariable (CustomCVForce energy_expression) ''weighted_distance'' c)
          ''k'' kv)
       ''r0'' (strip_units r)"

definition restraint_force :: "error + custom_cv_force" where
  "restraint_force = bind k (\<lambda>kv. Inr (make_restraint cv kv r0))"

section \<open>Systems, integrators and contexts\<close>

text \<open>
  The notebooks hold references to OpenMM objects and mutate them in place, so the
  objects live in a store and the Python variables are addresses into it. A System is
  its number of particles and its forces: the restraint, or a force of the force field
  or of the embedding engine, of which only the global parameters matter here.
\<close>

datatype force = CVForce custom_cv_force | OtherForce "(string \<times> real) list"

record system =
  sys_particles :: nat
  sys_forces :: "force list"

text \<open>An integrator has a step size and is bound to at most one context.\<close>

record integrator =
  step_size :: real
  bound :: "nat option"

text \<open>
  A context refers to the System and the integrator it was made from. It holds the
  forces as they were when it was made, the values of the global parameters, the
  positions and velocities, and the number of steps taken.
\<close>

record omm_context =
  ctx_system :: nat
  ctx_integrator :: nat
  ctx_platform :: string
  ctx_forces :: "force list"
  ctx_params :: "string \<rightharpoonup> real"
  ctx_positions :: positions
  ctx_velocities :: positions
  ctx_has_positions :: bool
  ctx_steps :: nat

record store =
  systems :: "system list"
  integrators :: "integrator list"
  contexts :: "omm_context list"

text \<open>
  A reference held by a running program always points into the store; the model makes
  a read outside it an error instead of an unspecified value.
\<close>

definition lookup :: "'a list \<Rightarrow> nat \<Rightarrow> error + 'a" where
  "lookup xs i = (if i < length xs then Inr (xs ! i) else Inl OpenMMException)"

definition getSystem :: "store \<Rightarrow> nat \<Rightarrow> error + nat" where
  "getSystem s c = bind (lookup (contexts s) c) (\<lambda>x. Inr (ctx_system x))"

definition getIntegrator :: "store \<Rightarrow> nat \<Rightarrow> error + nat" where
  "getIntegrator s c = bind (lookup (contexts s) c) (\<lambda>x. Inr (ctx_integrator x))"

definition getPlatform :: "store \<Rightarrow> nat \<Rightarrow> error + string" where
  "getPlatform s c = bind (lookup (contexts s) c) (\<lambda>x. Inr (ctx_platform x))"

definition getStepSize :: "store \<Rightarrow> nat \<Rightarrow> error + real" where
  "getStepSize s i = bind (lookup (integrators s) i) (\<lambda>x. Inr (step_size x))"

text \<open>
  \<open>deepcopy(integrator)\<close> and \<open>integrator.__copy__()\<close>: a new integrator object with the
  same settings, bound to no context.
\<close>

definition copy_integrator :: "store \<Rightarrow> nat \<Rightarrow> error + store \<times> nat" where
  "copy_integrator s i =
     bind (lookup (integrators s) i) (\<lambda>x.
       Inr (s\<lparr>integrators := integrators s @ [x\<lparr>bound := None\<rparr>]\<rparr>, length (integrators s)))"

text \<open>\<open>system.addForce(f)\<close> appends to the forces of the System object itself.\<close>

definition addForce :: "store \<Rightarrow> nat \<Rightarrow> force \<Rightarrow> error + store" where
  "addForce s sy f =
     bind (lookup (systems s) sy) (\<lambda>x.
       Inr (s\<lparr>systems := (systems s)[sy := x\<lparr>sys_forces := sys_forces x @ [f]\<rparr>]\<rparr>))"

text \<open>
  Making a context checks the forces against the System: every bond of a collective
  variable joins two particles of the System and gives a value to each per-bond
  parameter, and every variable of an energy expression is defined.
\<close>

definition cbf_ok :: "nat \<Rightarrow> custom_bond_force \<Rightarrow> bool" where
  "cbf_ok n f \<longleftrightarrow>
     list_all (\<lambda>(a1, a2, ps). a1 < n \<and> a2 < n \<and> length ps = length (cbf_params f)) (cbf_bonds f)
     \<and> list_all (\<lambda>v. v \<in> set (''r'' # cbf_params f)) (expr_vars (cbf_energy f))"

fun force_ok :: "nat \<Rightarrow> force \<Rightarrow> bool" where
  "force_ok n (OtherForce gs) = True"
| "force_ok n (CVForce f) \<longleftrightarrow>
     list_all (\<lambda>(name, c). cbf_ok n c) (cvf_cvs f)
     \<and> list_all (\<lambda>v. v \<in> set (map fst (cvf_cvs f) @ map fst (cvf_globals f)))
                (expr_vars (cvf_energy f))"

fun force_globals :: "force \<Rightarrow> (string \<times> real) list" where
  "force_globals (OtherForce gs) = gs"
| "force_globals (CVForce f) = cvf_globals f"

text \<open>
  The global parameters of a new context are the defaults the forces registered. Within
  one force the default registered last for a name is the one that counts. The forces
  are taken in order, and a force whose default for a name differs from the default an
  earlier force gave that name makes the creation of the context raise (two forces
  define different default values for the parameter).
\<close>

definition force_defaults :: "force \<Rightarrow> (string \<rightharpoonup> real)" where
  "force_defaults f = map_of (rev (force_globals f))"

fun collect_defaults :: "(string \<rightharpoonup> real) \<Rightarrow> force list \<Rightarrow> error + (string \<rightharpoonup> real)" where
  "collect_defaults acc [] = Inr acc"
| "collect_defaults acc (f # fs) =
     (if list_ex (\<lambda>name. acc name \<noteq> None \<and> acc name \<noteq> force_defaults f name)
                 (map fst (force_globals f))
      then Inl OpenMMException
      else collect_defaults (acc ++ force_defaults f) fs)"

definition default_params :: "force list \<Rightarrow> error + (string \<rightharpoonup> real)" where
  "default_params fs = collect_defaults Map.empty fs"

text \<open>
  \<open>openmm.Context(system, integrator, platform)\<close>: raises for an integrator that is
  already bound to a context, for a force that does not fit the System and for forces
  whose defaults for a global parameter differ; otherwise the new context is added to
  the store, the integrator is bound to it, and its positions are not set yet.
\<close>

definition Context :: "store \<Rightarrow> nat \<Rightarrow> nat \<Rightarrow> string \<Rightarrow> error + store \<times> nat" where
  "Context s sy i platform =
     bind (lookup (systems s) sy) (\<lambda>x.
     bind (lookup (integrators s) i) (\<lambda>g.
       if bound g \<noteq> None then Inl OpenMMException
       else if \<not> list_all (force_ok (sys_particles x)) (sys_forces x) then Inl OpenMMException
       else
         bind (default_params (sys_forces x)) (\<lambda>params.
           let c = length (contexts s) in
           Inr (s\<lparr>integrators := (integrators s)[i := g\<lparr>bound := Some c\<rparr>],
                  contexts := contexts s @
                    [\<lparr>ctx_system = sy, ctx_integrator = i, ctx_platform = platform,
                      ctx_forces = sys_forces x,
                      ctx_params = params,
                      ctx_positions = replicate (sys_particles x) (0, 0, 0),
                      ctx_velocities = replicate (sys_particles x) (0, 0, 0),
                      ctx_has_positions = False,
                      ctx_steps = 0\<rparr>]\<rparr>, c))))"

text \<open>\<open>context.setParameter(name, value)\<close> raises for a name no force has registered.\<close>

definition setParameter :: "store \<Rightarrow> nat \<Rightarrow> string \<Rightarrow> real \<Rightarrow> error + store" where
  "setParameter s c name v =
     bind (lookup (contexts s) c) (\<lambda>x.
       if ctx_params x name = None then Inl OpenMMException
       else Inr (s\<lparr>contexts := (contexts s)[c := x\<lparr>ctx_params := (ctx_params x)(name \<mapsto> v)\<rparr>]\<rparr>))"

text \<open>\<open>context.setPositions(p)\<close> raises unless there is one position for each particle.\<close>

definition setPositions :: "store \<Rightarrow> nat \<Rightarrow> positions \<Rightarrow> error + store" where
  "setPositions s c p =
     bind (lookup (contexts s) c) (\<lambda>x.
       if length p \<noteq> length (ctx_positions x) then Inl OpenMMException
       else Inr (s\<lparr>contexts := (contexts s)[c := x\<lparr>ctx_positions := p, ctx_has_positions := True\<rparr>]\<rparr>))"

text \<open>\<open>context.getState(getPositions=True).getPositions()\<close>: a snapshot of the positions.\<close>

definition getPositions :: "store \<Rightarrow> nat \<Rightarrow> error + positions" where
  "getPositions s c = bind (lookup (contexts s) c) (\<lambda>x. Inr (ctx_positions x))"

text \<open>
  The dynamics are the integrator's and the force field's, not the notebooks': one step
  is a parameter \<open>md\<close> that gives each particle its new position and velocity from the
  whole state of the context (its forces, parameters, positions, velocities and step
  count, on which a random stream may depend).
\<close>

type_synonym dynamics = "omm_context \<Rightarrow> nat \<Rightarrow> vec3 \<times> vec3"

definition step1 :: "dynamics \<Rightarrow> omm_context \<Rightarrow> omm_context" where
  "step1 md x =
     x\<lparr>ctx_positions := map (\<lambda>j. fst (md x j)) [0..<length (ctx_positions x)],
       ctx_velocities := map (\<lambda>j. snd (md x j)) [0..<length (ctx_velocities x)],
       ctx_steps := Suc (ctx_steps x)\<rparr>"

text \<open>
  \<open>integrator.step(n)\<close> advances the context the integrator is bound to, by n steps. It
  raises for an integrator bound to no context, and when a step is to be taken from
  positions that were never set.
\<close>

definition step :: "dynamics \<Rightarrow> store \<Rightarrow> nat \<Rightarrow> nat \<Rightarrow> error + store" where
  "step md s i n =
     bind (lookup (integrators s) i) (\<lambda>g.
       case bound g of
         None \<Rightarrow> Inl OpenMMException
       | Some c \<Rightarrow>
           bind (lookup (contexts s) c) (\<lambda>x.
             if 0 < n \<and> \<not> ctx_has_positions x then Inl OpenMMException
             else Inr (s\<lparr>contexts := (contexts s)[c := (step1 md ^^ n) x]\<rparr>)))"

section \<open>The trajectory file\<close>

text \<open>
  The file handle and the DCDFile writing to it: the number of atoms of the topology,
  the time step of the header, the frames written so far, and whether the handle is
  closed. \<open>writeModel\<close> raises unless it is given one position for each atom of the
  topology, and on a closed handle; otherwise it appends one frame.
\<close>

record dcd =
  dcd_atoms :: nat
  dcd_dt :: real
  dcd_frames :: "positions list"
  dcd_closed :: bool

definition DCDFile :: "nat \<Rightarrow> real \<Rightarrow> dcd" where
  "DCDFile n dt = \<lparr>dcd_atoms = n, dcd_dt = dt, dcd_frames = [], dcd_closed = False\<rparr>"

definition writeModel :: "dcd \<Rightarrow> positions \<Rightarrow> error + dcd" where
  "writeModel f p =
     (if length p \<noteq> dcd_atoms f \<or> dcd_closed f then Inl ValueError
      else Inr (f\<lparr>dcd_frames := dcd_frames f @ [p]\<rparr>))"

definition close :: "dcd \<Rightarrow> dcd" where
  "close f = f\<lparr>dcd_closed := True\<rparr>"

section \<open>The notebook cells\<close>

text \<open>
  ADP.ipynb, lines 152 to 157, from the context of the dynamics object:
  \<^verbatim>\<open>
  context = d.context()
  omm_system = context.getSystem()
  integrator = deepcopy(context.getIntegrator())
  new_context = openmm.Context(omm_system, integrator, context.getPlatform())
  new_context.setPositions(context.getState(getPositions=True).getPositions())
  \<close>
  The result is the store with the values of \<open>integrator\<close> and \<open>new_context\<close>.
\<close>

definition adp_setup :: "store \<Rightarrow> nat \<Rightarrow> error + store \<times> nat \<times> nat" where
  "adp_setup s context =
     bind (getSystem s context) (\<lambda>omm_system.
     bind (getIntegrator s context) (\<lambda>i0.
     bind (copy_integrator s i0) (\<lambda>(s1, integrator).
     bind (getPlatform s1 context) (\<lambda>platform.
     bind (Context s1 omm_system integrator platform) (\<lambda>(s2, new_context).
     bind (getPositions s2 context) (\<lambda>p.
     bind (setPositions s2 new_context p) (\<lambda>s3.
     Inr (s3, integrator, new_context))))))))"

text \<open>
  AbyU2.ipynb, lines 191 to 213 (and 442 to 464):
  \<^verbatim>\<open>
  context = d._d._omm_mols
  omm_system = context.getSystem()
  integrator = context.getIntegrator().__copy__()
  omm_system.addForce(restraint_force)
  new_context = openmm.Context(omm_system, integrator, context.getPlatform())
  new_context.setParameter("k", k)
  new_context.setParameter("r0", r0)
  new_context.setPositions(context.getState(getPositions=True).getPositions())
  \<close>
  with the force constant and the restraint of the first cell as arguments.
\<close>

definition abyu_setup_with :: "real \<Rightarrow> custom_cv_force \<Rightarrow> store \<Rightarrow> nat \<Rightarrow> error + store \<times> nat \<times> nat" where
  "abyu_setup_with kv rf s context =
     bind (getSystem s context) (\<lambda>omm_system.
     bind (getIntegrator s context) (\<lambda>i0.
     bind (copy_integrator s i0) (\<lambda>(s1, integrator).
     bind (addForce s1 omm_system (CVForce rf)) (\<lambda>s2.
     bind (getPlatform s2 context) (\<lambda>platform.
     bind (Context s2 omm_system integrator platform) (\<lambda>(s3, new_context).
     bind (setParameter s3 new_context ''k'' kv) (\<lambda>s4.
     bind (setParameter s4 new_context ''r0'' (strip_units r0)) (\<lambda>s5.
     bind (getPositions s5 context) (\<lambda>p.
     bind (setPositions s5 new_context p) (\<lambda>s6.
     Inr (s6, integrator, new_context)))))))))))"

definition abyu_setup :: "store \<Rightarrow> nat \<Rightarrow> error + store \<times> nat \<times> nat" where
  "abyu_setup s context =
     bind k (\<lambda>kv. bind restraint_force (\<lambda>rf. abyu_setup_with kv rf s context))"

text \<open>
  The loop of both production cells, with the number of writes M and the number of
  steps S between two writes:
  \<^verbatim>\<open>
  for x in range(M):
      integrator.step(S)
      state = new_context.getState(getPositions=True)
      positions = state.getPositions()
      dcd_file.writeModel(positions)
  \<close>
\<close>

fun sampling_loop :: "dynamics \<Rightarrow> nat \<Rightarrow> nat \<Rightarrow> nat \<Rightarrow> nat \<Rightarrow> store \<times> dcd \<Rightarrow> error + store \<times> dcd" where
  "sampling_loop md S integrator new_context 0 (s, f) = Inr (s, f)"
| "sampling_loop md S integrator new_context (Suc m) (s, f) =
     bind (step md s integrator S) (\<lambda>s1.
     bind (getPositions s1 new_context) (\<lambda>positions.
     bind (writeModel f positions) (\<lambda>f1.
     sampling_loop md S integrator new_context m (s1, f1))))"

text \<open>
  ADP.ipynb, lines 168 to 175; \<open>n_atoms\<close> is the number of atoms of \<open>prm.topology\<close>:
  \<^verbatim>\<open>
  file_handle = open(f"ADP_OpenMM/ADP_OpenMM.dcd", "bw")
  dcd_file = DCDFile(file_handle, prm.topology, dt=integrator.getStepSize())
  for x in range(500):
      ...
  file_handle.close()
  \<close>
\<close>

definition adp_production :: "dynamics \<Rightarrow> nat \<Rightarrow> store \<Rightarrow> nat \<Rightarrow> nat \<Rightarrow> error + store \<times> dcd" where
  "adp_production md n_atoms s integrator new_context =
     bind (getStepSize s integrator) (\<lambda>dt.
     bind (sampling_loop md 10 integrator new_context 500 (s, DCDFile n_atoms dt)) (\<lambda>(s1, f).
     Inr (s1, close f)))"

text \<open>
  AbyU2.ipynb, lines 248 to 261 (and 475 to 488):
  \<^verbatim>\<open>
  file_handle = open(f"./AbyU_OpenMM/AbyU_OpenMM_mace.dcd", "bw")
  state = new_context.getState(getPositions=True)
  positions = state.getPositions()
  dcd_file = DCDFile(file_handle, prm.topology, dt=integrator.getStepSize())
  dcd_file.writeModel(positions)

  for x in range(300):
      ...
  file_handle.close()
  \<close>
\<close>

definition abyu_production :: "dynamics \<Rightarrow> nat \<Rightarrow> store \<Rightarrow> nat \<Rightarrow> nat \<Rightarrow> error + store \<times> dcd" where
  "abyu_production md n_atoms s integrator new_context =
     bind (getPositions s new_context) (\<lambda>positions.
     bind (getStepSize s integrator) (\<lambda>dt.
     bind (writeModel (DCDFile n_atoms dt) positions) (\<lambda>f0.
     bind (sampling_loop md 1 integrator new_context 300 (s, f0)) (\<lambda>(s1, f).
     Inr (s1, close f)))))"

text \<open>
  The two cells of a notebook run one after the other: the production cell takes the
  integrator and the context the setup cell made.
\<close>

definition adp_notebook :: "dynamics \<Rightarrow> nat \<Rightarrow> store \<Rightarrow> nat \<Rightarrow> error + store \<times> dcd" where
  "adp_notebook md n_atoms s context =
     bind (adp_setup s context) (\<lambda>(s1, integrator, new_context).
       adp_production md n_atoms s1 integrator new_context)"

definition abyu_notebook :: "dynamics \<Rightarrow> nat \<Rightarrow> store \<Rightarrow> nat \<Rightarrow> error + store \<times> dcd" where
  "abyu_notebook md n_atoms s context =
     bind (abyu_setup s context) (\<lambda>(s1, integrator, new_context).
       abyu_production md n_atoms s1 integrator new_context)"

section \<open>Notions used to state the properties\<close>

text \<open>
  The specification's wording of the collective variable: the sum over the pairs of the
  weight times the distance of the pair.
\<close>

definition weighted_distance_spec :: "(nat \<times> nat \<times> real) list \<Rightarrow> positions \<Rightarrow> real" where
  "weighted_distance_spec ds p = (\<Sum>(a1, a2, w) \<leftarrow> ds. w * distance (p ! a1) (p ! a2))"


text \<open>A System with one more force, and the context a setup cell makes from a context.\<close>

definition with_force :: "system \<Rightarrow> force \<Rightarrow> system" where
  "with_force sy f = sy\<lparr>sys_forces := sys_forces sy @ [f]\<rparr>"

definition new_context_of :: "omm_context \<Rightarrow> system \<Rightarrow> nat \<Rightarrow> (string \<rightharpoonup> real) \<Rightarrow> omm_context" where
  "new_context_of x sy i params =
     \<lparr>ctx_system = ctx_system x, ctx_integrator = i, ctx_platform = ctx_platform x,
      ctx_forces = sys_forces sy, ctx_params = params,
      ctx_positions = ctx_positions x,
      ctx_velocities = replicate (sys_particles sy) (0, 0, 0),
      ctx_has_positions = True, ctx_steps = 0\<rparr>"

text \<open>
  What the dynamics object hands over: a context in the store whose System and
  integrator are in the store, with one position for each particle and with forces
  that fit the System and agree on the defaults of their global parameters.
\<close>

definition ctx_ok :: "store \<Rightarrow> nat \<Rightarrow> bool" where
  "ctx_ok s c \<longleftrightarrow>
     c < length (contexts s)
     \<and> ctx_system (contexts s ! c) < length (systems s)
     \<and> ctx_integrator (contexts s ! c) < length (integrators s)
     \<and> length (ctx_positions (contexts s ! c))
         = sys_particles (systems s ! ctx_system (contexts s ! c))
     \<and> list_all (force_ok (sys_particles (systems s ! ctx_system (contexts s ! c))))
         (sys_forces (systems s ! ctx_system (contexts s ! c)))
     \<and> \<not> isl (default_params (sys_forces (systems s ! ctx_system (contexts s ! c))))"

text \<open>
  A small run to evaluate the cells on: one System of 2126 particles with one force of
  the force field, one integrator, and one context with every particle at the origin
  but particle 2125; and dynamics that move every particle one unit along x per step.
\<close>

definition example_store :: store where
  "example_store =
     \<lparr>systems = [\<lparr>sys_particles = 2126, sys_forces = [OtherForce []]\<rparr>],
      integrators = [\<lparr>step_size = 0.001, bound = Some 0\<rparr>],
      contexts =
        [\<lparr>ctx_system = 0, ctx_integrator = 0, ctx_platform = ''CPU'',
          ctx_forces = [OtherForce []], ctx_params = Map.empty,
          ctx_positions = (replicate 2126 (0, 0, 0))[2125 := (1, 0, 0)],
          ctx_velocities = replicate 2126 (0, 0, 0),
          ctx_has_positions = True, ctx_steps = 0\<rparr>]\<rparr>"

definition example_md :: dynamics where
  "example_md x j =
     (case ctx_positions x ! j of (a, b, c) \<Rightarrow> ((a + 1, b, c), (1, 0, 0)))"

section \<open>Properties of the error analysis\<close>

lemma bind_Inr [simp]: "bind (Inr x) f = f x"
  by (simp add: bind_def)

lemma bind_Inl [simp]: "bind (Inl e) f = Inl e"
  by (simp add: bind_def)

lemma bind_eq_Inr: "bind m f = Inr y \<longleftrightarrow> (\<exists>x. m = Inr x \<and> f x = Inr y)"
  by (cases m) simp_all

lemma np_square_diff:
  "np_square (map2 (\<lambda>x y. x - y) a b) = map2 (\<lambda>x y. (x - y) ^ 2) a (b :: real list)"
  by (induction a b rule: list_induct2') (simp_all add: np_square_def)

lemma np_sqrt_mean_nonneg:
  assumes "\<forall>x \<in> set xs. 0 \<le> x"
  shows "np_sqrt (np_mean xs) = (if xs = [] then NaN else Fin (sqrt (sum_list xs / real (length xs))))"
proof (cases "xs = []")
  case True
  then show ?thesis by (simp add: np_mean_def)
next
  case False
  have "0 \<le> sum_list xs" using assms by (simp add: sum_list_nonneg)
  then have "0 \<le> sum_list xs / real (length xs)" by simp
  with False show ?thesis by (simp add: np_mean_def not_less)
qed

lemma get_rmse_equal_length:
  assumes "length a = length b"
  shows "get_rmse a b =
           Inr (if a = [] then NaN
                else Fin (sqrt (sum_list (map2 (\<lambda>x y. (x - y) ^ 2) a b) / real (length a))))"
proof -
  have "np_sub a b = Inr (map2 (\<lambda>x y. x - y) a b)"
    using assms by (simp add: np_sub_def np_binop_def)
  moreover have "map2 (\<lambda>x y. x - y) a b = [] \<longleftrightarrow> a = []"
    using assms by (cases a; cases b) simp_all
  moreover have "\<forall>x \<in> set (map2 (\<lambda>x y. (x - y) ^ 2) a b). 0 \<le> x"
    by (auto simp: in_set_zip)
  ultimately show ?thesis
    by (simp add: get_rmse_def np_square_diff np_sqrt_mean_nonneg assms)
qed

text \<open>
  C2. For two sequences of equal length \<open>get_rmse\<close> raises nothing and returns the square
  root of the mean of the elementwise squared differences (NaN exactly where that mean is
  undefined, for two empty sequences). The result is a function of the two arguments
  alone: the model of \<open>get_rmse\<close> takes no state and returns none.
\<close>

theorem get_rmse_is_rmse:
  "length a = length b \<Longrightarrow> get_rmse a b = Inr (of_spec (rmse_spec a b))"
proof -
  assume len: "length a = length b"
  have "map2 (\<lambda>x y. (x - y) ^ 2) a b = [] \<longleftrightarrow> a = []"
    using len by (cases a; cases b) simp_all
  then show ?thesis
    using len by (simp add: get_rmse_equal_length [OF len] rmse_spec_def mean_spec_def of_spec_def)
qed

lemma sqrt_9: "sqrt 9 = 3"
  by (rule real_sqrt_unique) simp_all

lemma sqrt_16: "sqrt 16 = 4"
  by (rule real_sqrt_unique) simp_all

lemma sqrt_25: "sqrt 25 = 5"
  by (rule real_sqrt_unique) simp_all

lemma sqrt_49: "sqrt 49 = 7"
  by (rule real_sqrt_unique) simp_all

theorem get_rmse_is_rmse_witness:
  "length [1, 5 :: real] = length [4, 2 :: real]
   \<and> get_rmse [1, 5] [4, 2] = Inr (of_spec (rmse_spec [1, 5] [4, 2]))
   \<and> get_rmse [1, 5] [4, 2] = Inr (Fin 3)"
proof -
  have "rmse_spec [1, 5] [4, 2] = Some 3"
    using sqrt_9 by (simp add: rmse_spec_def mean_spec_def)
  then show ?thesis
    using get_rmse_is_rmse [of "[1, 5]" "[4, 2]"] by (simp add: of_spec_def)
qed

text \<open>
  C1. \<open>get_total_rmse\<close> sums the static and induced components elementwise, on the QM
  side and on the EMLE side, and takes the error of the two sums; and there is a results
  table on which that differs from the quadrature combination
  \<open>sqrt(get_static_rmse(data)**2 + get_induced_rmse(data)**2)\<close>.
\<close>

theorem get_total_rmse_sums_first:
  "(\<forall>d sq iq se ie.
      d ''E_static_qm'' = Some sq \<and> d ''E_induced_qm'' = Some iq
      \<and> d ''E_static_emle'' = Some se \<and> d ''E_induced_emle'' = Some ie
      \<and> length sq = length iq \<and> length se = length ie \<longrightarrow>
      get_total_rmse d = get_rmse (map2 (\<lambda>x y. x + y) sq iq) (map2 (\<lambda>x y. x + y) se ie))
   \<and> (\<exists>d. \<not> py_eq (get_total_rmse d) (quadrature_rmse d)
          \<and> get_total_rmse d = Inr (Fin 7) \<and> quadrature_rmse d = Inr (Fin 5))"
proof (intro conjI allI impI)
  fix d :: data and sq iq se ie :: "real list"
  assume "d ''E_static_qm'' = Some sq \<and> d ''E_induced_qm'' = Some iq
      \<and> d ''E_static_emle'' = Some se \<and> d ''E_induced_emle'' = Some ie
      \<and> length sq = length iq \<and> length se = length ie"
  then show "get_total_rmse d = get_rmse (map2 (\<lambda>x y. x + y) sq iq) (map2 (\<lambda>x y. x + y) se ie)"
    by (simp add: get_total_rmse_def getitem_def bind_def np_add_def np_binop_def)
next
  have s: "get_static_rmse (mk_data [3] [4] [0] [0]) = Inr (Fin 3)"
    using sqrt_9
    by (simp add: get_static_rmse_def mk_data_def getitem_def bind_def get_rmse_def
        np_sub_def np_binop_def np_square_def np_mean_def)
  have i: "get_induced_rmse (mk_data [3] [4] [0] [0]) = Inr (Fin 4)"
    using sqrt_16
    by (simp add: get_induced_rmse_def mk_data_def getitem_def bind_def get_rmse_def
        np_sub_def np_binop_def np_square_def np_mean_def)
  have t: "get_total_rmse (mk_data [3] [4] [0] [0]) = Inr (Fin 7)"
    using sqrt_49
    by (simp add: get_total_rmse_def mk_data_def getitem_def bind_def get_rmse_def
        np_add_def np_sub_def np_binop_def np_square_def np_mean_def)
  have q: "quadrature_rmse (mk_data [3] [4] [0] [0]) = Inr (Fin 5)"
    using sqrt_25 by (simp add: quadrature_rmse_def s i bind_def)
  show "\<exists>d. \<not> py_eq (get_total_rmse d) (quadrature_rmse d)
          \<and> get_total_rmse d = Inr (Fin 7) \<and> quadrature_rmse d = Inr (Fin 5)"
    by (rule exI [of _ "mk_data [3] [4] [0] [0]"]) (simp add: t q)
qed

theorem get_total_rmse_sums_first_witness:
  "mk_data [1, 2] [3, 4] [0, 2] [1, 1] ''E_static_qm'' = Some [1, 2]
   \<and> mk_data [1, 2] [3, 4] [0, 2] [1, 1] ''E_induced_qm'' = Some [3, 4]
   \<and> mk_data [1, 2] [3, 4] [0, 2] [1, 1] ''E_static_emle'' = Some [0, 2]
   \<and> mk_data [1, 2] [3, 4] [0, 2] [1, 1] ''E_induced_emle'' = Some [1, 1]
   \<and> get_total_rmse (mk_data [1, 2] [3, 4] [0, 2] [1, 1]) = get_rmse [4, 6] [1, 3]
   \<and> get_rmse [4, 6] [1, 3] = Inr (Fin 3)"
proof -
  have keys: "mk_data [1, 2] [3, 4] [0, 2] [1, 1] ''E_static_qm'' = Some [1, 2]
      \<and> mk_data [1, 2] [3, 4] [0, 2] [1, 1] ''E_induced_qm'' = Some [3, 4]
      \<and> mk_data [1, 2] [3, 4] [0, 2] [1, 1] ''E_static_emle'' = Some [0, 2]
      \<and> mk_data [1, 2] [3, 4] [0, 2] [1, 1] ''E_induced_emle'' = Some [1, 1]"
    by (simp add: mk_data_def)
  then have "get_total_rmse (mk_data [1, 2] [3, 4] [0, 2] [1, 1])
          = get_rmse (map2 (\<lambda>x y. x + y) [1, 2] [3, 4]) (map2 (\<lambda>x y. x + y) [0, 2] [1, 1])"
    using conjunct1 [OF get_total_rmse_sums_first, rule_format,
        of "mk_data [1, 2] [3, 4] [0, 2] [1, 1]" "[1, 2]" "[3, 4]" "[0, 2]" "[1, 1]"]
    by simp
  moreover have "get_rmse [4, 6] [1, 3] = Inr (Fin 3)"
    using sqrt_9 by (simp add: get_rmse_equal_length)
  ultimately show ?thesis using keys by simp
qed

text \<open>
  C3, as stated: whenever the two arrays differ in length, \<open>get_rmse\<close> raises. It does not
  when one of them has exactly one element: NumPy broadcasts that element against the
  other array and a value comes back.
\<close>

theorem get_rmse_unequal_length_counterexample:
  "length [1 :: real] \<noteq> length [1, 3 :: real] \<and> get_rmse [1] [1, 3] = Inr (Fin (sqrt 2))"
  by (simp add: get_rmse_def np_sub_def np_binop_def np_square_def np_mean_def)

text \<open>
  C3, amended. For arrays of different lengths \<open>get_rmse\<close> raises (ValueError) exactly
  when neither array has length one; when one of them has length one a value is
  returned.
\<close>

theorem get_rmse_unequal_length:
  "length a \<noteq> length b \<Longrightarrow>
     (get_rmse a b = Inl ValueError \<longleftrightarrow> length a \<noteq> 1 \<and> length b \<noteq> 1)
     \<and> ((\<exists>v. get_rmse a b = Inr v) \<longleftrightarrow> length a = 1 \<or> length b = 1)"
  by (auto simp: get_rmse_def np_sub_def np_binop_def)

theorem get_rmse_unequal_length_witness:
  "length [1, 2 :: real] \<noteq> length [1, 2, 3 :: real]
   \<and> get_rmse [1, 2] [1, 2, 3] = Inl ValueError"
  using get_rmse_unequal_length [of "[1, 2]" "[1, 2, 3]"] by simp

text \<open>
  C4, as stated: \<open>get_rmse(a, a) == 0\<close> for every sequence, and \<open>get_rmse(a, b) ==
  get_rmse(b, a)\<close> for every two sequences of equal length. Both comparisons are false
  for the sequence with no element, where the result is NaN.
\<close>

theorem get_rmse_self_counterexample:
  "\<not> py_eq (get_rmse [] []) (Inr (Fin 0)) \<and> \<not> py_eq (get_rmse [] []) (get_rmse [] [])
   \<and> get_rmse [] [] = Inr NaN"
  by (simp add: get_rmse_def np_sub_def np_binop_def np_square_def np_mean_def)

text \<open>
  C4, amended. For two non-empty sequences of finite numbers of equal length
  \<open>get_rmse(a, b) == get_rmse(b, a)\<close>, and for every non-empty sequence of finite numbers
  \<open>get_rmse(a, a) == 0\<close>. The arrays of the model are these sequences: an element that
  is infinite or NaN is outside it, and there the result can be NaN (the difference of
  two equal infinities is), which makes the comparisons false as for the empty sequence.
\<close>

theorem get_rmse_symmetric_zero:
  "a \<noteq> [] \<Longrightarrow> length a = length b \<Longrightarrow>
     py_eq (get_rmse a b) (get_rmse b a) \<and> py_eq (get_rmse a a) (Inr (Fin 0))"
proof -
  assume ne: "a \<noteq> []" and len: "length a = length b"
  have swap: "map2 (\<lambda>x y. (x - y) ^ 2) a b = map2 (\<lambda>x y. (x - y) ^ 2) b a"
    using len by (induction a b rule: list_induct2) (simp_all add: power2_commute)
  have zero: "sum_list (map2 (\<lambda>x y. (x - y) ^ 2) a a) = 0"
    by (induction a) simp_all
  have "b \<noteq> []" using ne len by auto
  then show ?thesis
    using ne len swap zero
    by (simp add: get_rmse_equal_length [of a b] get_rmse_equal_length [of b a]
        get_rmse_equal_length [of a a])
qed

theorem get_rmse_symmetric_zero_witness:
  "[1, 5 :: real] \<noteq> [] \<and> length [1, 5 :: real] = length [4, 2 :: real]
   \<and> py_eq (get_rmse [1, 5] [4, 2]) (get_rmse [4, 2] [1, 5])
   \<and> py_eq (get_rmse [1, 5] [1, 5]) (Inr (Fin 0))
   \<and> get_rmse [4, 2] [1, 5] = Inr (Fin 3)"
proof -
  have "get_rmse [4, 2] [1, 5] = Inr (Fin 3)"
    using sqrt_9 by (simp add: get_rmse_equal_length)
  then show ?thesis
    using get_rmse_symmetric_zero [of "[1, 5]" "[4, 2]"] by simp
qed

section \<open>Properties of the units and of the restraint force\<close>

lemma force_constant_value: "force_constant n = Inr (n * 418.4)"
  by (simp add: force_constant_def value_in_unit_def quantity_div_def times_unit_def unit_div_def
      unit_pow_def kilocalorie_per_mole_def angstrom_def kilojoule_per_mole_def nanometer_def
      power2_eq_square)

text \<open>
  C7. The force constant of the first cell: 125 kcal/mol/angstrom^2 is converted to
  52300 kJ/mol/nm^2, which is 125 * 4.184 / 0.1^2. The arithmetic of the model is exact,
  so the two agree within every tolerance; the rounding of the floating-point
  computation is not part of the model.
\<close>

theorem force_constant_conversion: "k = Inr 52300 \<and> (52300 :: real) = 125 * 4.184 / 0.1 ^ 2"
  by (simp add: k_def force_constant_value power2_eq_square)


lemma make_cv_fields:
  "cbf_energy (make_cv ds) = Mul (Var ''weight'') (Var ''r'')"
  "cbf_params (make_cv ds) = [''weight'']"
  "cbf_bonds (make_cv ds) = map (\<lambda>(a1, a2, w). (a1, a2, [w])) ds"
proof -
  define f0 where "f0 = addPerBondParameter (CustomBondForce (Mul (Var ''weight'') (Var ''r''))) ''weight''"
  have gen: "cbf_energy (fold (\<lambda>(atom1, atom2, weight) f. addBond f atom1 atom2 [weight]) ds f) = cbf_energy f
     \<and> cbf_params (fold (\<lambda>(atom1, atom2, weight) f. addBond f atom1 atom2 [weight]) ds f) = cbf_params f
     \<and> cbf_bonds (fold (\<lambda>(atom1, atom2, weight) f. addBond f atom1 atom2 [weight]) ds f)
         = cbf_bonds f @ map (\<lambda>(a1, a2, w). (a1, a2, [w])) ds" for f
    by (induction ds arbitrary: f) (auto simp: addBond_def)
  have "cbf_energy f0 = Mul (Var ''weight'') (Var ''r'')" "cbf_params f0 = [''weight'']" "cbf_bonds f0 = []"
    by (simp_all add: f0_def addPerBondParameter_def CustomBondForce_def)
  then show "cbf_energy (make_cv ds) = Mul (Var ''weight'') (Var ''r'')"
    "cbf_params (make_cv ds) = [''weight'']"
    "cbf_bonds (make_cv ds) = map (\<lambda>(a1, a2, w). (a1, a2, [w])) ds"
    using gen [of f0] by (simp_all add: make_cv_def f0_def)
qed

lemma sum_energies_Inr: "sum_energies (map (Inr \<circ> g) xs) = Inr (sum_list (map g xs))"
  by (induction xs) simp_all

lemma make_cv_total:
  assumes "\<forall>(a1, a2, w) \<in> set ds. a1 < length p \<and> a2 < length p"
  shows "cbf_total (make_cv ds) p = Inr (weighted_distance_spec ds p)"
proof -
  have "map (bond_energy (make_cv ds) p) (cbf_bonds (make_cv ds))
          = map Inr (map (\<lambda>(a1, a2, w). w * distance (p ! a1) (p ! a2)) ds)"
    using assms by (auto simp: make_cv_fields bond_energy_def)
  then show ?thesis
    by (simp add: cbf_total_def sum_energies_Inr weighted_distance_spec_def)
qed

lemma make_restraint_fields:
  "cvf_energy (make_restraint c kv r) = energy_expression"
  "cvf_cvs (make_restraint c kv r) = [(''weighted_distance'', c)]"
  "cvf_globals (make_restraint c kv r) = [(''k'', kv), (''r0'', strip_units r)]"
  by (simp_all add: make_restraint_def addGlobalParameter_def addCollectiveVariable_def CustomCVForce_def)

lemma make_restraint_total:
  assumes "cbf_total c p = Inr wd" "params ''k'' = Some kk" "params ''r0'' = Some rr"
  shows "cvf_total (make_restraint c kv r) params p = Inr (kk * (wd - rr) ^ 2)"
  using assms by (simp add: cvf_total_def make_restraint_fields energy_expression_def map_add_def)

lemma distances_weighted:
  "weighted_distance_spec distances p
     = 0.7 * distance (p ! 2125) (p ! 2094) + 0.3 * distance (p ! 2119) (p ! 2087)"
  by (simp add: weighted_distance_spec_def distances_def)

section \<open>Properties of the setup cells\<close>

lemma lookup_eq_Inr: "lookup xs i = Inr x \<longleftrightarrow> i < length xs \<and> x = xs ! i"
  by (auto simp: lookup_def)

lemma lookup_in_range: "i < length xs \<Longrightarrow> lookup xs i = Inr (xs ! i)"
  by (simp add: lookup_def)

lemma not_isl_iff: "\<not> isl m \<longleftrightarrow> (\<exists>x. m = Inr x)"
  by (cases m) simp_all

lemma adp_setup_result:
  assumes "adp_setup s c = Inr (s3, i, nc)"
  shows "\<exists>ps. c < length (contexts s) \<and> i = length (integrators s) \<and> nc = length (contexts s)
     \<and> ctx_system (contexts s ! c) < length (systems s)
     \<and> default_params (sys_forces (systems s ! ctx_system (contexts s ! c))) = Inr ps
     \<and> systems s3 = systems s
     \<and> integrators s3 = integrators s @ [(integrators s ! ctx_integrator (contexts s ! c))\<lparr>bound := Some nc\<rparr>]
     \<and> contexts s3 = contexts s @
          [new_context_of (contexts s ! c) (systems s ! ctx_system (contexts s ! c)) i ps]"
  using assms
  unfolding adp_setup_def getSystem_def getIntegrator_def getPlatform_def copy_integrator_def
    Context_def setPositions_def getPositions_def new_context_of_def
  by (auto simp: bind_eq_Inr lookup_eq_Inr nth_append Let_def split: if_splits)

lemma adp_setup_success:
  assumes "ctx_ok s c"
  shows "\<exists>s3. adp_setup s c = Inr (s3, length (integrators s), length (contexts s))"
proof -
  obtain ps where "default_params (sys_forces (systems s ! ctx_system (contexts s ! c))) = Inr ps"
    using assms by (auto simp: ctx_ok_def not_isl_iff)
  then show ?thesis
    using assms
    unfolding adp_setup_def getSystem_def getIntegrator_def getPlatform_def copy_integrator_def
      Context_def setPositions_def getPositions_def ctx_ok_def
    by (simp add: lookup_in_range nth_append Let_def)
qed

lemma abyu_setup_with_result:
  assumes "abyu_setup_with kv rf s c = Inr (s6, i, nc)"
  shows "\<exists>ps. c < length (contexts s) \<and> i = length (integrators s) \<and> nc = length (contexts s)
     \<and> ctx_system (contexts s ! c) < length (systems s)
     \<and> force_ok (sys_particles (systems s ! ctx_system (contexts s ! c))) (CVForce rf)
     \<and> length (ctx_positions (contexts s ! c)) = sys_particles (systems s ! ctx_system (contexts s ! c))
     \<and> default_params (sys_forces (systems s ! ctx_system (contexts s ! c)) @ [CVForce rf]) = Inr ps
     \<and> systems s6 = (systems s)[ctx_system (contexts s ! c) :=
                        with_force (systems s ! ctx_system (contexts s ! c)) (CVForce rf)]
     \<and> integrators s6 = integrators s @ [(integrators s ! ctx_integrator (contexts s ! c))\<lparr>bound := Some nc\<rparr>]
     \<and> contexts s6 = contexts s @
          [(new_context_of (contexts s ! c)
              (with_force (systems s ! ctx_system (contexts s ! c)) (CVForce rf)) i ps)
             \<lparr>ctx_params := ps(''k'' \<mapsto> kv, ''r0'' \<mapsto> strip_units r0)\<rparr>]"
  using assms
  unfolding abyu_setup_with_def getSystem_def getIntegrator_def getPlatform_def copy_integrator_def
    Context_def setPositions_def getPositions_def setParameter_def addForce_def new_context_of_def
    with_force_def
  by (auto simp: bind_eq_Inr lookup_eq_Inr nth_append Let_def split: if_splits)

lemma collect_defaults_append:
  "collect_defaults acc (fs @ gs) = bind (collect_defaults acc fs) (\<lambda>a. collect_defaults a gs)"
  by (induction fs arbitrary: acc) simp_all

lemma force_defaults_restraint:
  "force_defaults (CVForce (make_restraint c kv r)) ''k'' = Some kv"
  "force_defaults (CVForce (make_restraint c kv r)) ''r0'' = Some (strip_units r)"
  by (simp_all add: force_defaults_def make_restraint_fields)

lemma default_params_restraint:
  assumes "default_params (fs @ [CVForce (make_restraint c kv r)]) = Inr ps"
  shows "ps ''k'' \<noteq> None \<and> ps ''r0'' \<noteq> None"
proof -
  from assms obtain a where
    "collect_defaults a [CVForce (make_restraint c kv r)] = Inr ps"
    by (auto simp: default_params_def collect_defaults_append bind_eq_Inr)
  then have "ps = a ++ force_defaults (CVForce (make_restraint c kv r))"
    by (simp split: if_splits)
  then show ?thesis
    by (simp add: force_defaults_restraint map_add_def)
qed

lemma abyu_setup_with_success:
  assumes "ctx_ok s c"
    and "force_ok (sys_particles (systems s ! ctx_system (contexts s ! c))) (CVForce (make_restraint cc kv0 r))"
    and "\<not> isl (default_params (sys_forces (systems s ! ctx_system (contexts s ! c))
                                 @ [CVForce (make_restraint cc kv0 r)]))"
  shows "\<exists>s6. abyu_setup_with kv (make_restraint cc kv0 r) s c = Inr (s6, length (integrators s), length (contexts s))"
proof -
  obtain ps where ps: "default_params (sys_forces (systems s ! ctx_system (contexts s ! c))
                                 @ [CVForce (make_restraint cc kv0 r)]) = Inr ps"
    using assms(3) by (auto simp: not_isl_iff)
  note dom = default_params_restraint [OF ps]
  show ?thesis
    using assms(1,2) ps dom
    unfolding abyu_setup_with_def getSystem_def getIntegrator_def getPlatform_def copy_integrator_def
      Context_def setPositions_def getPositions_def setParameter_def addForce_def ctx_ok_def
    by (simp add: lookup_in_range nth_append Let_def del: force_ok.simps)
qed

lemma k_value: "k = Inr 52300"
  by (simp add: k_def force_constant_value)

lemma abyu_setup_eq:
  "abyu_setup s c = abyu_setup_with 52300 (make_restraint (make_cv distances) 52300 r0) s c"
  by (simp add: abyu_setup_def restraint_force_def cv_def k_value)

section \<open>Properties of the sampling loop\<close>

lemma funpow_twice: "(f ^^ a) ((f ^^ b) x) = (f ^^ (a + b)) x"
  by (simp add: funpow_add)

lemma step1_funpow_fields:
  "ctx_steps ((step1 md ^^ n) x) = ctx_steps x + n"
  "length (ctx_positions ((step1 md ^^ n) x)) = length (ctx_positions x)"
  "ctx_has_positions ((step1 md ^^ n) x) = ctx_has_positions x"
  by (induction n) (simp_all add: step1_def)

lemma step_result:
  assumes "step md s i n = Inr s1"
  shows "\<exists>c. i < length (integrators s) \<and> bound (integrators s ! i) = Some c
           \<and> c < length (contexts s)
           \<and> s1 = s\<lparr>contexts := (contexts s)[c := (step1 md ^^ n) (contexts s ! c)]\<rparr>"
  using assms unfolding step_def
  by (auto simp: bind_eq_Inr lookup_eq_Inr split: option.splits if_splits)

lemma step_success:
  assumes "i < length (integrators s)" "bound (integrators s ! i) = Some c"
    "c < length (contexts s)" "ctx_has_positions (contexts s ! c)"
  shows "step md s i n = Inr (s\<lparr>contexts := (contexts s)[c := (step1 md ^^ n) (contexts s ! c)]\<rparr>)"
  using assms by (simp add: step_def lookup_in_range)

lemma writeModel_result:
  "writeModel f p = Inr f1 \<longleftrightarrow>
     length p = dcd_atoms f \<and> \<not> dcd_closed f \<and> f1 = f\<lparr>dcd_frames := dcd_frames f @ [p]\<rparr>"
  by (auto simp: writeModel_def)

lemma sampling_loop_count:
  "sampling_loop md S i nc M (s, f) = Inr (s', f') \<Longrightarrow>
     length (dcd_frames f') = length (dcd_frames f) + M
     \<and> dcd_atoms f' = dcd_atoms f \<and> dcd_dt f' = dcd_dt f \<and> dcd_closed f' = dcd_closed f"
proof (induction M arbitrary: s f)
  case 0
  then show ?case by simp
next
  case (Suc M)
  from Suc.prems obtain s1 p f1 where
    w: "writeModel f p = Inr f1" and
    rest: "sampling_loop md S i nc M (s1, f1) = Inr (s', f')"
    by (auto simp: bind_eq_Inr)
  from w have "f1 = f\<lparr>dcd_frames := dcd_frames f @ [p]\<rparr>"
    by (simp add: writeModel_result)
  with Suc.IH [OF rest] show ?case by simp
qed

lemma sampling_loop_result:
  assumes "sampling_loop md S i nc M (s, f) = Inr (s', f')"
    and "i < length (integrators s)" "bound (integrators s ! i) = Some nc"
    and "nc < length (contexts s)"
  shows "s' = s\<lparr>contexts := (contexts s)[nc := (step1 md ^^ (M * S)) (contexts s ! nc)]\<rparr>
     \<and> f' = f\<lparr>dcd_frames := dcd_frames f @
               map (\<lambda>j. ctx_positions ((step1 md ^^ (Suc j * S)) (contexts s ! nc))) [0..<M]\<rparr>"
  using assms
proof (induction M arbitrary: s f)
  case 0
  then show ?case by simp
next
  case (Suc M)
  let ?x = "contexts s ! nc"
  let ?s1 = "s\<lparr>contexts := (contexts s)[nc := (step1 md ^^ S) ?x]\<rparr>"
  let ?f1 = "f\<lparr>dcd_frames := dcd_frames f @ [ctx_positions ((step1 md ^^ S) ?x)]\<rparr>"
  from Suc.prems(1) obtain s1 p f1 where
    st: "step md s i S = Inr s1" and
    gp: "getPositions s1 nc = Inr p" and
    w: "writeModel f p = Inr f1" and
    rest: "sampling_loop md S i nc M (s1, f1) = Inr (s', f')"
    by (auto simp: bind_eq_Inr)
  from st Suc.prems(2,3) have s1: "s1 = ?s1"
    using step_result [OF st] by auto
  from gp s1 Suc.prems(4) have p: "p = ctx_positions ((step1 md ^^ S) ?x)"
    by (simp add: getPositions_def bind_eq_Inr lookup_eq_Inr)
  from w p have f1: "f1 = ?f1" by (simp add: writeModel_result)
  have nth: "contexts ?s1 ! nc = (step1 md ^^ S) ?x"
    using Suc.prems(4) by simp
  have ih: "s' = ?s1\<lparr>contexts := (contexts ?s1)[nc := (step1 md ^^ (M * S)) (contexts ?s1 ! nc)]\<rparr>
     \<and> f' = ?f1\<lparr>dcd_frames := dcd_frames ?f1 @
               map (\<lambda>j. ctx_positions ((step1 md ^^ (Suc j * S)) (contexts ?s1 ! nc))) [0..<M]\<rparr>"
    using Suc.IH [of ?s1 ?f1] rest Suc.prems(2,3,4) s1 f1 by simp
  have pow1: "(step1 md ^^ (M * S)) ((step1 md ^^ S) ?x) = (step1 md ^^ (Suc M * S)) ?x"
    by (simp add: funpow_twice add.commute)
  have pow2: "(step1 md ^^ (Suc j * S)) ((step1 md ^^ S) ?x) = (step1 md ^^ (Suc (Suc j) * S)) ?x" for j
    by (simp add: funpow_twice add.commute)
  have frames: "[ctx_positions ((step1 md ^^ S) ?x)] @
      map (\<lambda>j. ctx_positions ((step1 md ^^ (Suc j * S)) ((step1 md ^^ S) ?x))) [0..<M]
      = map (\<lambda>j. ctx_positions ((step1 md ^^ (Suc j * S)) ?x)) [0..<Suc M]"
    unfolding pow2 by (simp only: map_upt_Suc [of _ M]) simp
  from ih show ?case
    unfolding nth pow1 using frames by simp
qed

lemma sampling_loop_success:
  assumes "i < length (integrators s)" "bound (integrators s ! i) = Some nc"
    and "nc < length (contexts s)" "ctx_has_positions (contexts s ! nc)"
    and "length (ctx_positions (contexts s ! nc)) = dcd_atoms f" "\<not> dcd_closed f"
  shows "\<exists>s' f'. sampling_loop md S i nc M (s, f) = Inr (s', f')"
  using assms
proof (induction M arbitrary: s f)
  case 0
  then show ?case by simp
next
  case (Suc M)
  let ?x = "contexts s ! nc"
  let ?s1 = "s\<lparr>contexts := (contexts s)[nc := (step1 md ^^ S) ?x]\<rparr>"
  let ?f1 = "f\<lparr>dcd_frames := dcd_frames f @ [ctx_positions ((step1 md ^^ S) ?x)]\<rparr>"
  have st: "step md s i S = Inr ?s1"
    using Suc.prems by (simp add: step_success)
  have gp: "getPositions ?s1 nc = Inr (ctx_positions ((step1 md ^^ S) ?x))"
    using Suc.prems by (simp add: getPositions_def lookup_in_range)
  have w: "writeModel f (ctx_positions ((step1 md ^^ S) ?x)) = Inr ?f1"
    using Suc.prems by (simp add: writeModel_def step1_funpow_fields)
  have "\<exists>s' f'. sampling_loop md S i nc M (?s1, ?f1) = Inr (s', f')"
    using Suc.prems by (intro Suc.IH) (simp_all add: step1_funpow_fields)
  then show ?case by (simp add: st gp w)
qed

section \<open>The restraint in the new context\<close>

lemma cbf_ok_make_cv:
  "cbf_ok n (make_cv ds) \<longleftrightarrow> (\<forall>(a1, a2, w) \<in> set ds. a1 < n \<and> a2 < n)"
  by (auto simp: cbf_ok_def make_cv_fields list_all_iff)

lemma force_ok_restraint:
  "force_ok n (CVForce (make_restraint (make_cv ds) kv r)) \<longleftrightarrow> (\<forall>(a1, a2, w) \<in> set ds. a1 < n \<and> a2 < n)"
  by (simp add: make_restraint_fields cbf_ok_make_cv energy_expression_def)

lemma force_ok_distances:
  "force_ok n (CVForce (make_restraint (make_cv distances) kv r)) \<longleftrightarrow> 2125 < n"
  by (auto simp: force_ok_restraint distances_def simp del: force_ok.simps)

lemma ctx_ok_example: "ctx_ok example_store 0"
  by (simp add: ctx_ok_def example_store_def default_params_def)

lemma example_defaults_agree:
  "\<not> isl (default_params (sys_forces (systems example_store ! ctx_system (contexts example_store ! 0))
                              @ [CVForce (make_restraint (make_cv distances) 52300 r0)]))"
  by (simp add: example_store_def default_params_def force_defaults_def make_restraint_fields)





lemma kv_positive: "force_constant n = Inr kv \<Longrightarrow> 0 < n \<Longrightarrow> 0 < kv"
  by (auto simp: force_constant_value)

lemma square_less_iff_abs: "(x :: real) ^ 2 < y ^ 2 \<longleftrightarrow> \<bar>x\<bar> < \<bar>y\<bar>"
  using abs_le_square_iff [of y x] by (simp add: not_le [symmetric])

lemma square_eq_iff_abs: "(x :: real) ^ 2 = y ^ 2 \<longleftrightarrow> \<bar>x\<bar> = \<bar>y\<bar>"
  by (simp add: power2_eq_iff abs_eq_iff)

text \<open>
  C6. For any list of weighted pairs, at the force constant the first cell computes
  (from a positive number of kcal/mol/angstrom^2) and at any value of r0: the restraint
  energy is zero exactly when the weighted distance equals r0, positive otherwise, and
  of two configurations the one with the larger \<open>|weighted_distance - r0|\<close> has the
  strictly larger energy; equal \<open>|weighted_distance - r0|\<close> give equal energies.
\<close>

theorem restraint_energy_shape:
  assumes "force_constant n = Inr kv" "0 < n"
    and "params ''k'' = Some kv" "params ''r0'' = Some r"
    and "\<forall>(a1, a2, wt) \<in> set ds.
           a1 < length p \<and> a2 < length p \<and> a1 < length p' \<and> a2 < length p'"
  shows "\<exists>E E'. cvf_total (make_restraint (make_cv ds) kv rq) params p = Inr E
      \<and> cvf_total (make_restraint (make_cv ds) kv rq) params p' = Inr E'
      \<and> E = kv * (weighted_distance_spec ds p - r) ^ 2
      \<and> E' = kv * (weighted_distance_spec ds p' - r) ^ 2
      \<and> (E = 0 \<longleftrightarrow> weighted_distance_spec ds p = r)
      \<and> (0 < E \<longleftrightarrow> weighted_distance_spec ds p \<noteq> r)
      \<and> (E < E' \<longleftrightarrow> \<bar>weighted_distance_spec ds p - r\<bar> < \<bar>weighted_distance_spec ds p' - r\<bar>)
      \<and> (E = E' \<longleftrightarrow> \<bar>weighted_distance_spec ds p - r\<bar> = \<bar>weighted_distance_spec ds p' - r\<bar>)"
proof -
  let ?w = "weighted_distance_spec ds p" and ?w' = "weighted_distance_spec ds p'"
  have pos: "0 < kv" using assms(1,2) by (rule kv_positive)
  have "cbf_total (make_cv ds) p = Inr ?w"
    using assms(5) by (intro make_cv_total) auto
  then have E: "cvf_total (make_restraint (make_cv ds) kv rq) params p = Inr (kv * (?w - r) ^ 2)"
    using assms(3,4) by (rule make_restraint_total)
  have "cbf_total (make_cv ds) p' = Inr ?w'"
    using assms(5) by (intro make_cv_total) auto
  then have E': "cvf_total (make_restraint (make_cv ds) kv rq) params p' = Inr (kv * (?w' - r) ^ 2)"
    using assms(3,4) by (rule make_restraint_total)
  have z: "kv * (?w - r) ^ 2 = 0 \<longleftrightarrow> ?w = r"
    using pos by simp
  have p: "0 < kv * (?w - r) ^ 2 \<longleftrightarrow> ?w \<noteq> r"
    using pos by (simp add: zero_less_mult_iff)
  have m: "kv * (?w - r) ^ 2 < kv * (?w' - r) ^ 2 \<longleftrightarrow> \<bar>?w - r\<bar> < \<bar>?w' - r\<bar>"
    using pos by (simp add: square_less_iff_abs)
  have e: "kv * (?w - r) ^ 2 = kv * (?w' - r) ^ 2 \<longleftrightarrow> \<bar>?w - r\<bar> = \<bar>?w' - r\<bar>"
    using pos by (simp add: square_eq_iff_abs)
  show ?thesis
    using E E' z p m e by blast
qed

lemma weighted_distance_examples:
  "weighted_distance_spec distances (replicate 2126 (0, 0, 0)) = 0"
  "weighted_distance_spec distances ((replicate 2126 (0, 0, 0))[2125 := (1, 0, 0)]) = 0.7"
  by (simp_all add: distances_weighted distance_def)

theorem restraint_energy_shape_witness:
  "force_constant 125 = Inr 52300 \<and> (0 :: real) < 125
   \<and> [''k'' \<mapsto> 52300 :: real, ''r0'' \<mapsto> 0.7] ''k'' = Some 52300
   \<and> [''k'' \<mapsto> 52300 :: real, ''r0'' \<mapsto> 0.7] ''r0'' = Some 0.7
   \<and> list_all (\<lambda>(a1, a2, wt). a1 < 2126 \<and> a2 < 2126) distances
   \<and> cvf_total (make_restraint (make_cv distances) 52300 r0) [''k'' \<mapsto> 52300, ''r0'' \<mapsto> 0.7]
        ((replicate 2126 (0, 0, 0))[2125 := (1, 0, 0)]) = Inr 0
   \<and> cvf_total (make_restraint (make_cv distances) 52300 r0) [''k'' \<mapsto> 52300, ''r0'' \<mapsto> 0.7]
        (replicate 2126 (0, 0, 0)) = Inr 25627"
proof -
  have idx: "\<forall>(a1, a2, wt) \<in> set distances.
      a1 < length ((replicate 2126 (0 :: real, 0 :: real, 0 :: real))[2125 := (1, 0, 0)])
      \<and> a2 < length ((replicate 2126 (0 :: real, 0 :: real, 0 :: real))[2125 := (1, 0, 0)])
      \<and> a1 < length (replicate 2126 (0 :: real, 0 :: real, 0 :: real))
      \<and> a2 < length (replicate 2126 (0 :: real, 0 :: real, 0 :: real))"
    by (simp add: distances_def)
  have fc: "force_constant 125 = Inr 52300" by (simp add: force_constant_value)
  have d: "list_all (\<lambda>(a1, a2, wt). a1 < 2126 \<and> a2 < 2126) distances"
    by (simp add: distances_def)
  obtain E E' where
    "cvf_total (make_restraint (make_cv distances) 52300 r0) [''k'' \<mapsto> 52300, ''r0'' \<mapsto> 0.7]
        ((replicate 2126 (0, 0, 0))[2125 := (1, 0, 0)]) = Inr E"
    "cvf_total (make_restraint (make_cv distances) 52300 r0) [''k'' \<mapsto> 52300, ''r0'' \<mapsto> 0.7]
        (replicate 2126 (0, 0, 0)) = Inr E'"
    "E = 52300 * (weighted_distance_spec distances ((replicate 2126 (0, 0, 0))[2125 := (1, 0, 0)]) - 0.7) ^ 2"
    "E' = 52300 * (weighted_distance_spec distances (replicate 2126 (0, 0, 0)) - 0.7) ^ 2"
    using restraint_energy_shape [OF fc _ _ _ idx, of "[''k'' \<mapsto> 52300, ''r0'' \<mapsto> 0.7]" "0.7" r0]
    by auto
  then show ?thesis
    using d by (simp add: fc weighted_distance_examples power2_eq_square)
qed

section \<open>The contexts before and after a setup cell\<close>

lemma abyu_setup_result:
  assumes "abyu_setup s c = Inr (s1, i, nc)"
  shows "abyu_setup_with 52300 (make_restraint cv 52300 r0) s c = Inr (s1, i, nc)"
  using assms by (simp add: abyu_setup_eq cv_def)

lemma abyu_setup_success:
  assumes "ctx_ok s c" "2125 < sys_particles (systems s ! ctx_system (contexts s ! c))"
    and "\<not> isl (default_params (sys_forces (systems s ! ctx_system (contexts s ! c))
                                 @ [CVForce (make_restraint (make_cv distances) 52300 r0)]))"
  shows "\<exists>s1. abyu_setup s c = Inr (s1, length (integrators s), length (contexts s))"
  using abyu_setup_with_success [OF assms(1) _ assms(3), of 52300] assms(2)
  by (simp add: abyu_setup_eq force_ok_distances del: force_ok.simps)

lemma adp_fresh:
  assumes "adp_setup s c = Inr (s1, i, nc)"
  shows "nc = length (contexts s) \<and> i = length (integrators s)
      \<and> ctx_positions (contexts s1 ! nc) = ctx_positions (contexts s ! c)
      \<and> ctx_system (contexts s1 ! nc) = ctx_system (contexts s ! c)
      \<and> ctx_integrator (contexts s1 ! nc) = i
      \<and> integrators s1 ! i = (integrators s ! ctx_integrator (contexts s ! c))\<lparr>bound := Some nc\<rparr>
      \<and> take (length (contexts s)) (contexts s1) = contexts s
      \<and> take (length (integrators s)) (integrators s1) = integrators s
      \<and> systems s1 = systems s"
  using adp_setup_result [OF assms] by (auto simp: new_context_of_def)

lemma abyu_fresh:
  assumes "abyu_setup s c = Inr (t1, j, mc)"
  shows "mc = length (contexts s) \<and> j = length (integrators s)
      \<and> ctx_positions (contexts t1 ! mc) = ctx_positions (contexts s ! c)
      \<and> ctx_system (contexts t1 ! mc) = ctx_system (contexts s ! c)
      \<and> ctx_integrator (contexts t1 ! mc) = j
      \<and> integrators t1 ! j = (integrators s ! ctx_integrator (contexts s ! c))\<lparr>bound := Some mc\<rparr>
      \<and> take (length (contexts s)) (contexts t1) = contexts s
      \<and> take (length (integrators s)) (integrators t1) = integrators s
      \<and> systems t1 = (systems s)[ctx_system (contexts s ! c) :=
                         with_force (systems s ! ctx_system (contexts s ! c))
                                    (CVForce (make_restraint cv 52300 r0))]"
  using abyu_setup_with_result [OF abyu_setup_result [OF assms]]
  by (auto simp: new_context_of_def simp del: force_ok.simps)

text \<open>
  C9, amended. The new context is made on the System object of the original context
  (the same object, not a copy), with a copy of its integrator bound to the new context
  and with its positions: after the setup cell the positions of the new context equal
  those of the original one, and every context and integrator that existed before, the
  original ones among them, is as it was. The Systems are unchanged by the ADP cell; the
  AbyU cell appends the restraint force to the System the two contexts share.
\<close>

theorem fresh_context_shares_system:
  "(adp_setup s c = Inr (s1, i, nc) \<longrightarrow>
      nc = length (contexts s) \<and> i = length (integrators s)
      \<and> ctx_positions (contexts s1 ! nc) = ctx_positions (contexts s ! c)
      \<and> ctx_system (contexts s1 ! nc) = ctx_system (contexts s ! c)
      \<and> ctx_integrator (contexts s1 ! nc) = i
      \<and> integrators s1 ! i = (integrators s ! ctx_integrator (contexts s ! c))\<lparr>bound := Some nc\<rparr>
      \<and> take (length (contexts s)) (contexts s1) = contexts s
      \<and> take (length (integrators s)) (integrators s1) = integrators s
      \<and> systems s1 = systems s)
   \<and> (abyu_setup s c = Inr (t1, j, mc) \<longrightarrow>
      mc = length (contexts s) \<and> j = length (integrators s)
      \<and> ctx_positions (contexts t1 ! mc) = ctx_positions (contexts s ! c)
      \<and> ctx_system (contexts t1 ! mc) = ctx_system (contexts s ! c)
      \<and> ctx_integrator (contexts t1 ! mc) = j
      \<and> integrators t1 ! j = (integrators s ! ctx_integrator (contexts s ! c))\<lparr>bound := Some mc\<rparr>
      \<and> take (length (contexts s)) (contexts t1) = contexts s
      \<and> take (length (integrators s)) (integrators t1) = integrators s
      \<and> systems t1 = (systems s)[ctx_system (contexts s ! c) :=
                         with_force (systems s ! ctx_system (contexts s ! c))
                                    (CVForce (make_restraint cv 52300 r0))])"
  by (rule conjI; rule impI) (erule adp_fresh, erule abyu_fresh)

lemma example_fields:
  "length (contexts example_store) = 1" "length (integrators example_store) = 1"
  "ctx_system (contexts example_store ! 0) = 0"
  "ctx_integrator (contexts example_store ! 0) = 0"
  "systems example_store = [\<lparr>sys_particles = 2126, sys_forces = [OtherForce []]\<rparr>]"
  "ctx_positions (contexts example_store ! 0) = (replicate 2126 (0, 0, 0))[2125 := (1, 0, 0)]"
  by (simp_all add: example_store_def)

text \<open>
  C9, as stated: the System is copied, and the System of the original context is not
  modified by the setup cell. On the example the AbyU cell succeeds, the new context
  refers to the very System of the original context, and that System has gained the
  restraint force.
\<close>

theorem system_modified_counterexample:
  "\<not> isl (abyu_setup example_store 0)
   \<and> ctx_system (contexts (fst (projr (abyu_setup example_store 0))) ! 1)
       = ctx_system (contexts example_store ! 0)
   \<and> sys_forces (systems example_store ! ctx_system (contexts example_store ! 0)) = [OtherForce []]
   \<and> sys_forces (systems (fst (projr (abyu_setup example_store 0)))
                    ! ctx_system (contexts example_store ! 0))
       = [OtherForce [], CVForce (make_restraint cv 52300 r0)]"
proof -
  obtain s1 where r: "abyu_setup example_store 0 = Inr (s1, 1, 1)"
    using abyu_setup_success [OF ctx_ok_example _ example_defaults_agree]
    by (auto simp: example_fields)
  from abyu_setup_with_result [OF abyu_setup_result [OF r]]
  show ?thesis
    by (auto simp: r example_fields new_context_of_def with_force_def nth_append
        simp del: force_ok.simps)
qed

theorem fresh_context_shares_system_witness:
  "\<not> isl (adp_setup example_store 0) \<and> \<not> isl (abyu_setup example_store 0)
   \<and> snd (projr (adp_setup example_store 0)) = (1, 1)
   \<and> snd (projr (abyu_setup example_store 0)) = (1, 1)
   \<and> ctx_positions (contexts (fst (projr (adp_setup example_store 0))) ! 1)
       = (replicate 2126 (0, 0, 0))[2125 := (1, 0, 0)]
   \<and> ctx_positions (contexts (fst (projr (abyu_setup example_store 0))) ! 1)
       = (replicate 2126 (0, 0, 0))[2125 := (1, 0, 0)]
   \<and> take 1 (contexts (fst (projr (adp_setup example_store 0)))) = contexts example_store
   \<and> take 1 (contexts (fst (projr (abyu_setup example_store 0)))) = contexts example_store
   \<and> systems (fst (projr (adp_setup example_store 0))) = systems example_store"
proof -
  obtain s1 where a: "adp_setup example_store 0 = Inr (s1, 1, 1)"
    using adp_setup_success [OF ctx_ok_example] by (auto simp: example_fields)
  obtain t1 where b: "abyu_setup example_store 0 = Inr (t1, 1, 1)"
    using abyu_setup_success [OF ctx_ok_example _ example_defaults_agree]
    by (auto simp: example_fields)
  show ?thesis
    using fresh_context_shares_system [of example_store 0 s1 1 1 t1 1 1] a b
    by (simp add: example_fields)
qed

section \<open>The production loop after a setup cell\<close>

lemma setup_binds_copy:
  assumes "adp_setup s c = Inr (s1, i, nc) \<or> abyu_setup s c = Inr (s1, i, nc)"
  shows "c < length (contexts s) \<and> nc = length (contexts s) \<and> i = length (integrators s)
     \<and> i < length (integrators s1) \<and> nc < length (contexts s1)
     \<and> bound (integrators s1 ! i) = Some nc
     \<and> ctx_integrator (contexts s1 ! nc) = i
     \<and> ctx_has_positions (contexts s1 ! nc)
     \<and> length (ctx_positions (contexts s1 ! nc)) = length (ctx_positions (contexts s ! c))
     \<and> take (length (contexts s)) (contexts s1) = contexts s
     \<and> take (length (integrators s)) (integrators s1) = integrators s"
  using assms
proof
  assume "adp_setup s c = Inr (s1, i, nc)"
  from adp_setup_result [OF this] show ?thesis
    by (auto simp: new_context_of_def)
next
  assume "abyu_setup s c = Inr (s1, i, nc)"
  from abyu_setup_with_result [OF abyu_setup_result [OF this]] show ?thesis
    by (auto simp: new_context_of_def simp del: force_ok.simps)
qed

lemma loop_after_setup:
  assumes made: "adp_setup s c = Inr (s1, i, nc) \<or> abyu_setup s c = Inr (s1, i, nc)"
    and loop: "sampling_loop md S i nc m (s1, f0) = Inr (sm, fm)"
  shows "bound (integrators s1 ! i) = Some nc \<and> nc \<noteq> c
     \<and> ctx_integrator (contexts s1 ! nc) = i
     \<and> take (length (contexts s)) (contexts sm) = contexts s
     \<and> contexts sm ! c = contexts s ! c
     \<and> ctx_positions (contexts sm ! c) = ctx_positions (contexts s ! c)
     \<and> take (length (integrators s)) (integrators sm) = integrators s
     \<and> contexts sm ! nc = (step1 md ^^ (m * S)) (contexts s1 ! nc)
     \<and> dcd_frames fm = dcd_frames f0 @
          map (\<lambda>j. ctx_positions ((step1 md ^^ (Suc j * S)) (contexts s1 ! nc))) [0..<m]"
proof -
  note b = setup_binds_copy [OF made]
  from b have i: "i < length (integrators s1)" and bd: "bound (integrators s1 ! i) = Some nc"
    and nc: "nc < length (contexts s1)" by blast+
  note r = sampling_loop_result [OF loop i bd nc]
  from r have sm: "contexts sm = (contexts s1)[nc := (step1 md ^^ (m * S)) (contexts s1 ! nc)]"
    and ig: "integrators sm = integrators s1" by simp_all
  have tk: "take (length (contexts s)) (contexts sm) = contexts s"
    using b by (simp add: sm)
  have c: "contexts sm ! c = contexts s ! c"
  proof -
    have "contexts sm ! c = take (length (contexts s)) (contexts sm) ! c"
      using b by simp
    then show ?thesis by (simp add: tk)
  qed
  from b have eqs: "nc = length (contexts s)" "c < length (contexts s)"
    "ctx_integrator (contexts s1 ! nc) = i"
    "take (length (integrators s)) (integrators s1) = integrators s" by blast+
  have new: "contexts sm ! nc = (step1 md ^^ (m * S)) (contexts s1 ! nc)"
    using nc by (simp add: sm)
  have fr: "dcd_frames fm = dcd_frames f0 @
          map (\<lambda>j. ctx_positions ((step1 md ^^ (Suc j * S)) (contexts s1 ! nc))) [0..<m]"
    using r by simp
  have "nc \<noteq> c" using eqs(1,2) by simp
  then show ?thesis
    using bd eqs(3,4) tk c new fr by (simp add: ig)
qed

lemma adp_production_result:
  assumes "adp_production md n s i nc = Inr (s2, f)"
  shows "\<exists>f1. sampling_loop md 10 i nc 500 (s, DCDFile n (step_size (integrators s ! i))) = Inr (s2, f1)
            \<and> f = close f1"
  using assms
  by (auto simp: adp_production_def getStepSize_def bind_eq_Inr lookup_eq_Inr)

lemma abyu_production_result:
  assumes "abyu_production md n s i nc = Inr (s2, f)"
  shows "\<exists>f1. sampling_loop md 1 i nc 300
              (s, (DCDFile n (step_size (integrators s ! i)))\<lparr>dcd_frames := [ctx_positions (contexts s ! nc)]\<rparr>)
              = Inr (s2, f1)
            \<and> f = close f1"
  using assms
  by (auto simp: abyu_production_def getStepSize_def getPositions_def bind_eq_Inr lookup_eq_Inr
      writeModel_result DCDFile_def)

text \<open>
  C10. After either setup cell the integrator the production loop steps is the copy,
  which is bound to the new context and is the integrator of that context. After any
  number of iterations of the loop every context that existed before the setup cell,
  the original one with its positions among them, and every integrator that existed
  before are as they were; the new context has advanced by the steps taken; and each
  frame written is the positions of the new context after the steps of its iteration.
  The same holds of the two production cells as they are written.
\<close>

theorem only_new_context_evolves:
  "((adp_setup s c = Inr (s1, i, nc) \<or> abyu_setup s c = Inr (s1, i, nc))
      \<and> sampling_loop md S i nc m (s1, f0) = Inr (sm, fm) \<longrightarrow>
      bound (integrators s1 ! i) = Some nc \<and> nc \<noteq> c
      \<and> ctx_integrator (contexts s1 ! nc) = i
      \<and> take (length (contexts s)) (contexts sm) = contexts s
      \<and> contexts sm ! c = contexts s ! c
      \<and> ctx_positions (contexts sm ! c) = ctx_positions (contexts s ! c)
      \<and> take (length (integrators s)) (integrators sm) = integrators s
      \<and> contexts sm ! nc = (step1 md ^^ (m * S)) (contexts s1 ! nc)
      \<and> dcd_frames fm = dcd_frames f0 @
           map (\<lambda>j. ctx_positions ((step1 md ^^ (Suc j * S)) (contexts s1 ! nc))) [0..<m])
   \<and> (adp_setup s c = Inr (s1, i, nc) \<and> adp_production md n s1 i nc = Inr (s2, f) \<longrightarrow>
      ctx_positions (contexts s2 ! c) = ctx_positions (contexts s ! c)
      \<and> contexts s2 ! nc = (step1 md ^^ 5000) (contexts s1 ! nc)
      \<and> dcd_frames f = map (\<lambda>j. ctx_positions ((step1 md ^^ (Suc j * 10)) (contexts s1 ! nc))) [0..<500])
   \<and> (abyu_setup s c = Inr (s1, i, nc) \<and> abyu_production md n s1 i nc = Inr (s2, f) \<longrightarrow>
      ctx_positions (contexts s2 ! c) = ctx_positions (contexts s ! c)
      \<and> contexts s2 ! nc = (step1 md ^^ 300) (contexts s1 ! nc)
      \<and> dcd_frames f = ctx_positions (contexts s1 ! nc) #
           map (\<lambda>j. ctx_positions ((step1 md ^^ Suc j) (contexts s1 ! nc))) [0..<300])"
proof (rule conjI [OF _ conjI]; rule impI)
  assume "(adp_setup s c = Inr (s1, i, nc) \<or> abyu_setup s c = Inr (s1, i, nc))
      \<and> sampling_loop md S i nc m (s1, f0) = Inr (sm, fm)"
  then show "bound (integrators s1 ! i) = Some nc \<and> nc \<noteq> c
      \<and> ctx_integrator (contexts s1 ! nc) = i
      \<and> take (length (contexts s)) (contexts sm) = contexts s
      \<and> contexts sm ! c = contexts s ! c
      \<and> ctx_positions (contexts sm ! c) = ctx_positions (contexts s ! c)
      \<and> take (length (integrators s)) (integrators sm) = integrators s
      \<and> contexts sm ! nc = (step1 md ^^ (m * S)) (contexts s1 ! nc)
      \<and> dcd_frames fm = dcd_frames f0 @
           map (\<lambda>j. ctx_positions ((step1 md ^^ (Suc j * S)) (contexts s1 ! nc))) [0..<m]"
    using loop_after_setup [of s c s1 i nc md S m f0 sm fm] by blast
next
  assume h: "adp_setup s c = Inr (s1, i, nc) \<and> adp_production md n s1 i nc = Inr (s2, f)"
  then obtain f1 where
    l: "sampling_loop md 10 i nc 500 (s1, DCDFile n (step_size (integrators s1 ! i))) = Inr (s2, f1)"
    and f: "f = close f1"
    using adp_production_result by blast
  from h have "adp_setup s c = Inr (s1, i, nc) \<or> abyu_setup s c = Inr (s1, i, nc)" by simp
  from loop_after_setup [OF this l] f
  show "ctx_positions (contexts s2 ! c) = ctx_positions (contexts s ! c)
      \<and> contexts s2 ! nc = (step1 md ^^ 5000) (contexts s1 ! nc)
      \<and> dcd_frames f = map (\<lambda>j. ctx_positions ((step1 md ^^ (Suc j * 10)) (contexts s1 ! nc))) [0..<500]"
    by (simp add: close_def DCDFile_def)
next
  assume h: "abyu_setup s c = Inr (s1, i, nc) \<and> abyu_production md n s1 i nc = Inr (s2, f)"
  then obtain f1 where
    l: "sampling_loop md 1 i nc 300
          (s1, (DCDFile n (step_size (integrators s1 ! i)))\<lparr>dcd_frames := [ctx_positions (contexts s1 ! nc)]\<rparr>)
          = Inr (s2, f1)"
    and f: "f = close f1"
    using abyu_production_result by blast
  from h have "adp_setup s c = Inr (s1, i, nc) \<or> abyu_setup s c = Inr (s1, i, nc)" by simp
  from loop_after_setup [OF this l] f
  show "ctx_positions (contexts s2 ! c) = ctx_positions (contexts s ! c)
      \<and> contexts s2 ! nc = (step1 md ^^ 300) (contexts s1 ! nc)
      \<and> dcd_frames f = ctx_positions (contexts s1 ! nc) #
           map (\<lambda>j. ctx_positions ((step1 md ^^ Suc j) (contexts s1 ! nc))) [0..<300]"
    by (simp add: close_def)
qed

section \<open>The number of frames\<close>

lemma adp_production_success:
  assumes "i < length (integrators s)" "bound (integrators s ! i) = Some nc"
    and "nc < length (contexts s)" "ctx_has_positions (contexts s ! nc)"
    and "length (ctx_positions (contexts s ! nc)) = n"
  shows "\<exists>s2 f. adp_production md n s i nc = Inr (s2, f)"
proof -
  obtain s2 f1 where
    "sampling_loop md 10 i nc 500 (s, DCDFile n (step_size (integrators s ! i))) = Inr (s2, f1)"
    using sampling_loop_success [OF assms(1-4), of "DCDFile n (step_size (integrators s ! i))" md 10 500]
      assms(5) by (auto simp: DCDFile_def)
  then show ?thesis
    using assms(1) by (simp add: adp_production_def getStepSize_def lookup_in_range)
qed

lemma abyu_production_success:
  assumes "i < length (integrators s)" "bound (integrators s ! i) = Some nc"
    and "nc < length (contexts s)" "ctx_has_positions (contexts s ! nc)"
    and "length (ctx_positions (contexts s ! nc)) = n"
  shows "\<exists>s2 f. abyu_production md n s i nc = Inr (s2, f)"
proof -
  let ?f0 = "(DCDFile n (step_size (integrators s ! i)))\<lparr>dcd_frames := [ctx_positions (contexts s ! nc)]\<rparr>"
  obtain s2 f1 where "sampling_loop md 1 i nc 300 (s, ?f0) = Inr (s2, f1)"
    using sampling_loop_success [OF assms(1-4), of ?f0 md 1 300] assms(5)
    by (auto simp: DCDFile_def)
  then show ?thesis
    using assms
    by (simp add: abyu_production_def getStepSize_def getPositions_def lookup_in_range
        writeModel_def DCDFile_def)
qed

lemma adp_notebook_success:
  assumes "ctx_ok s c" "n = sys_particles (systems s ! ctx_system (contexts s ! c))"
  shows "\<exists>s2 f. adp_notebook md n s c = Inr (s2, f)"
proof -
  obtain s1 where a: "adp_setup s c = Inr (s1, length (integrators s), length (contexts s))"
    using adp_setup_success [OF assms(1)] by blast
  note b = setup_binds_copy [OF disjI1, OF a]
  have "length (ctx_positions (contexts s1 ! length (contexts s))) = n"
    using b assms by (simp add: ctx_ok_def)
  with b obtain s2 f where
    "adp_production md n s1 (length (integrators s)) (length (contexts s)) = Inr (s2, f)"
    using adp_production_success [of "length (integrators s)" s1 "length (contexts s)" n md]
    by blast
  then show ?thesis by (simp add: adp_notebook_def a)
qed

lemma abyu_notebook_success:
  assumes "ctx_ok s c" "n = sys_particles (systems s ! ctx_system (contexts s ! c))" "2125 < n"
    and "\<not> isl (default_params (sys_forces (systems s ! ctx_system (contexts s ! c))
                                 @ [CVForce (make_restraint (make_cv distances) 52300 r0)]))"
  shows "\<exists>s2 f. abyu_notebook md n s c = Inr (s2, f)"
proof -
  obtain s1 where a: "abyu_setup s c = Inr (s1, length (integrators s), length (contexts s))"
    using abyu_setup_success [OF assms(1) _ assms(4)] assms(2,3) by blast
  note b = setup_binds_copy [OF disjI2, OF a]
  have "length (ctx_positions (contexts s1 ! length (contexts s))) = n"
    using b assms by (simp add: ctx_ok_def)
  with b obtain s2 f where
    "abyu_production md n s1 (length (integrators s)) (length (contexts s)) = Inr (s2, f)"
    using abyu_production_success [of "length (integrators s)" s1 "length (contexts s)" n md]
    by blast
  then show ?thesis by (simp add: abyu_notebook_def a)
qed

lemma adp_production_count:
  assumes "adp_production md n s i nc = Inr (s2, f)"
  shows "length (dcd_frames f) = 500 \<and> dcd_closed f"
proof -
  obtain f1 where
    l: "sampling_loop md 10 i nc 500 (s, DCDFile n (step_size (integrators s ! i))) = Inr (s2, f1)"
    and f: "f = close f1"
    using adp_production_result [OF assms] by blast
  from sampling_loop_count [OF l] f show ?thesis
    by (simp add: close_def DCDFile_def)
qed

lemma abyu_production_count:
  assumes "abyu_production md n s i nc = Inr (s2, f)"
  shows "length (dcd_frames f) = 301 \<and> dcd_closed f"
proof -
  obtain f1 where
    l: "sampling_loop md 1 i nc 300
          (s, (DCDFile n (step_size (integrators s ! i)))\<lparr>dcd_frames := [ctx_positions (contexts s ! nc)]\<rparr>)
          = Inr (s2, f1)"
    and f: "f = close f1"
    using abyu_production_result [OF assms] by blast
  from sampling_loop_count [OF l] f show ?thesis
    by (simp add: close_def)
qed

lemma loop_steps:
  assumes "sampling_loop md S i nc M (s, f) = Inr (s', f')"
    and "i < length (integrators s)" "bound (integrators s ! i) = Some nc"
    and "nc < length (contexts s)"
  shows "ctx_steps (contexts s' ! nc) = ctx_steps (contexts s ! nc) + M * S
     \<and> dcd_frames f' = dcd_frames f @
          map (\<lambda>j. ctx_positions ((step1 md ^^ (Suc j * S)) (contexts s ! nc))) [0..<M]"
  using sampling_loop_result [OF assms] assms(4) by (simp add: step1_funpow_fields)

text \<open>
  C8. A loop of M iterations that completes has appended exactly M frames, has advanced
  the context of the integrator by exactly S steps in each iteration, M * S in all, and
  has written after each iteration the positions queried from the context. The ADP
  production cell, when it completes, has written exactly 500 frames and the AbyU cell
  exactly 301, and the file is closed; so has each notebook, setup cell and production
  cell together, when it completes.
\<close>

theorem sampling_frame_counts:
  "(sampling_loop md S i nc M (s, f) = Inr (s', f') \<longrightarrow>
      length (dcd_frames f') = length (dcd_frames f) + M)
   \<and> (sampling_loop md S i nc M (s, f) = Inr (s', f')
      \<and> i < length (integrators s) \<and> bound (integrators s ! i) = Some nc
      \<and> nc < length (contexts s) \<longrightarrow>
      ctx_steps (contexts s' ! nc) = ctx_steps (contexts s ! nc) + M * S
      \<and> dcd_frames f' = dcd_frames f @
           map (\<lambda>j. ctx_positions ((step1 md ^^ (Suc j * S)) (contexts s ! nc))) [0..<M])
   \<and> (adp_production md n s i nc = Inr (sa, fa) \<longrightarrow>
      length (dcd_frames fa) = 500 \<and> dcd_closed fa)
   \<and> (abyu_production md n s i nc = Inr (sb, fb) \<longrightarrow>
      length (dcd_frames fb) = 301 \<and> dcd_closed fb)
   \<and> (adp_notebook md n s c = Inr (sc, fc) \<longrightarrow> length (dcd_frames fc) = 500)
   \<and> (abyu_notebook md n s c = Inr (sd, fd) \<longrightarrow> length (dcd_frames fd) = 301)"
proof -
  have 1: "sampling_loop md S i nc M (s, f) = Inr (s', f') \<longrightarrow>
      length (dcd_frames f') = length (dcd_frames f) + M"
    using sampling_loop_count by blast
  have 2: "sampling_loop md S i nc M (s, f) = Inr (s', f')
      \<and> i < length (integrators s) \<and> bound (integrators s ! i) = Some nc
      \<and> nc < length (contexts s) \<longrightarrow>
      ctx_steps (contexts s' ! nc) = ctx_steps (contexts s ! nc) + M * S
      \<and> dcd_frames f' = dcd_frames f @
           map (\<lambda>j. ctx_positions ((step1 md ^^ (Suc j * S)) (contexts s ! nc))) [0..<M]"
    using loop_steps [of md S i nc M s f s' f'] by blast
  have 3: "adp_production md n s i nc = Inr (sa, fa) \<longrightarrow>
      length (dcd_frames fa) = 500 \<and> dcd_closed fa"
    using adp_production_count by blast
  have 4: "abyu_production md n s i nc = Inr (sb, fb) \<longrightarrow>
      length (dcd_frames fb) = 301 \<and> dcd_closed fb"
    using abyu_production_count by blast
  have 5: "adp_notebook md n s c = Inr (sc, fc) \<longrightarrow> length (dcd_frames fc) = 500"
    using adp_production_count
    by (auto simp: adp_notebook_def bind_eq_Inr)
  have 6: "abyu_notebook md n s c = Inr (sd, fd) \<longrightarrow> length (dcd_frames fd) = 301"
    using abyu_production_count
    by (auto simp: abyu_notebook_def bind_eq_Inr)
  from 1 2 3 4 5 6 show ?thesis by (intro conjI)
qed

section \<open>The cells on the example run\<close>

theorem sampling_frame_counts_witness:
  "\<not> isl (adp_notebook example_md 2126 example_store 0)
   \<and> length (dcd_frames (snd (projr (adp_notebook example_md 2126 example_store 0)))) = 500
   \<and> \<not> isl (abyu_notebook example_md 2126 example_store 0)
   \<and> length (dcd_frames (snd (projr (abyu_notebook example_md 2126 example_store 0)))) = 301
   \<and> \<not> isl (sampling_loop example_md 3 0 0 2 (example_store, DCDFile 2126 0.001))
   \<and> length (dcd_frames (snd (projr
        (sampling_loop example_md 3 0 0 2 (example_store, DCDFile 2126 0.001))))) = 2
   \<and> ctx_steps (contexts (fst (projr
        (sampling_loop example_md 3 0 0 2 (example_store, DCDFile 2126 0.001)))) ! 0) = 6
   \<and> \<not> isl (adp_production example_md 2126 example_store 0 0)
   \<and> length (dcd_frames (snd (projr (adp_production example_md 2126 example_store 0 0)))) = 500
   \<and> dcd_closed (snd (projr (adp_production example_md 2126 example_store 0 0)))
   \<and> \<not> isl (abyu_production example_md 2126 example_store 0 0)
   \<and> length (dcd_frames (snd (projr (abyu_production example_md 2126 example_store 0 0)))) = 301
   \<and> dcd_closed (snd (projr (abyu_production example_md 2126 example_store 0 0)))"
proof -
  note t = sampling_frame_counts [where md = example_md and n = 2126 and s = example_store and c = 0]
  have n: "2126 = sys_particles (systems example_store ! ctx_system (contexts example_store ! 0))"
    by (simp add: example_fields)
  obtain s2 f2 where a: "adp_notebook example_md 2126 example_store 0 = Inr (s2, f2)"
    using adp_notebook_success [OF ctx_ok_example n] by blast
  obtain s3 f3 where b: "abyu_notebook example_md 2126 example_store 0 = Inr (s3, f3)"
    using abyu_notebook_success [OF ctx_ok_example n _ example_defaults_agree, of example_md]
    by auto
  have pre: "(0 :: nat) < length (integrators example_store)"
    "bound (integrators example_store ! 0) = Some 0"
    "(0 :: nat) < length (contexts example_store)"
    "ctx_has_positions (contexts example_store ! 0)"
    "length (ctx_positions (contexts example_store ! 0)) = dcd_atoms (DCDFile 2126 0.001)"
    "\<not> dcd_closed (DCDFile 2126 0.001)"
    by (simp_all add: example_store_def DCDFile_def)
  obtain s4 f4 where l: "sampling_loop example_md 3 0 0 2 (example_store, DCDFile 2126 0.001) = Inr (s4, f4)"
    using sampling_loop_success [OF pre] by blast
  have "length (dcd_frames f2) = 500"
    using t [where sc = s2 and fc = f2] a by blast
  moreover have "length (dcd_frames f3) = 301"
    using t [where sd = s3 and fd = f3] b by blast
  moreover have "length (dcd_frames f4) = 2 \<and> ctx_steps (contexts s4 ! 0) = 6"
    using sampling_frame_counts [of example_md 3 0 0 2 example_store "DCDFile 2126 0.001" s4 f4] l pre
    by (simp add: DCDFile_def example_store_def)
  moreover obtain s5 f5 where p5: "adp_production example_md 2126 example_store 0 0 = Inr (s5, f5)"
    using adp_production_success [OF pre(1-4), of 2126 example_md] pre(5)
    by (auto simp: DCDFile_def)
  moreover obtain s6 f6 where p6: "abyu_production example_md 2126 example_store 0 0 = Inr (s6, f6)"
    using abyu_production_success [OF pre(1-4), of 2126 example_md] pre(5)
    by (auto simp: DCDFile_def)
  moreover have "length (dcd_frames f5) = 500 \<and> dcd_closed f5"
    using t [where i = 0 and nc = 0 and sa = s5 and fa = f5] p5 by blast
  moreover have "length (dcd_frames f6) = 301 \<and> dcd_closed f6"
    using t [where i = 0 and nc = 0 and sb = s6 and fb = f6] p6 by blast
  ultimately show ?thesis using a b l by simp
qed

theorem only_new_context_evolves_witness:
  "\<not> isl (adp_setup example_store 0)
   \<and> snd (projr (adp_setup example_store 0)) = (1, 1)
   \<and> \<not> isl (adp_production example_md 2126 (fst (projr (adp_setup example_store 0))) 1 1)
   \<and> ctx_positions (contexts (fst (projr
        (adp_production example_md 2126 (fst (projr (adp_setup example_store 0))) 1 1))) ! 0)
       = (replicate 2126 (0, 0, 0))[2125 := (1, 0, 0)]
   \<and> length (dcd_frames (snd (projr
        (adp_production example_md 2126 (fst (projr (adp_setup example_store 0))) 1 1)))) = 500
   \<and> \<not> isl (abyu_setup example_store 0)
   \<and> \<not> isl (abyu_production example_md 2126 (fst (projr (abyu_setup example_store 0))) 1 1)
   \<and> ctx_positions (contexts (fst (projr
        (abyu_production example_md 2126 (fst (projr (abyu_setup example_store 0))) 1 1))) ! 0)
       = (replicate 2126 (0, 0, 0))[2125 := (1, 0, 0)]
   \<and> length (dcd_frames (snd (projr
        (abyu_production example_md 2126 (fst (projr (abyu_setup example_store 0))) 1 1)))) = 301
   \<and> hd (dcd_frames (snd (projr
        (abyu_production example_md 2126 (fst (projr (abyu_setup example_store 0))) 1 1))))
       = (replicate 2126 (0, 0, 0))[2125 := (1, 0, 0)]"
proof -
  obtain s1 where a: "adp_setup example_store 0 = Inr (s1, 1, 1)"
    using adp_setup_success [OF ctx_ok_example] by (auto simp: example_fields)
  note b = setup_binds_copy [OF disjI1, OF a]
  have "length (ctx_positions (contexts s1 ! 1)) = 2126"
    using b by (simp add: example_fields)
  with b obtain s2 f where p: "adp_production example_md 2126 s1 1 1 = Inr (s2, f)"
    using adp_production_success [of 1 s1 1 2126 example_md] by blast
  have "ctx_positions (contexts s2 ! 0) = ctx_positions (contexts example_store ! 0)
      \<and> dcd_frames f = map (\<lambda>j. ctx_positions ((step1 example_md ^^ (Suc j * 10)) (contexts s1 ! 1))) [0..<500]"
    using only_new_context_evolves [where s = example_store and c = 0 and ?s1.0 = s1 and i = 1
        and nc = 1 and md = example_md and n = 2126 and ?s2.0 = s2 and f = f] a p
    by blast
  moreover obtain t1 where a': "abyu_setup example_store 0 = Inr (t1, 1, 1)"
    using abyu_setup_success [OF ctx_ok_example _ example_defaults_agree]
    by (auto simp: example_fields)
  note b' = setup_binds_copy [OF disjI2, OF a']
  have new: "ctx_positions (contexts t1 ! 1) = (replicate 2126 (0, 0, 0))[2125 := (1, 0, 0)]"
    using abyu_fresh [OF a'] by (simp add: example_fields)
  then have "length (ctx_positions (contexts t1 ! 1)) = 2126" by simp
  with b' obtain t2 g where p': "abyu_production example_md 2126 t1 1 1 = Inr (t2, g)"
    using abyu_production_success [of 1 t1 1 2126 example_md] by blast
  have "ctx_positions (contexts t2 ! 0) = ctx_positions (contexts example_store ! 0)
      \<and> dcd_frames g = ctx_positions (contexts t1 ! 1) #
           map (\<lambda>j. ctx_positions ((step1 example_md ^^ Suc j) (contexts t1 ! 1))) [0..<300]"
    using only_new_context_evolves [where s = example_store and c = 0 and ?s1.0 = t1 and i = 1
        and nc = 1 and md = example_md and n = 2126 and ?s2.0 = t2 and f = g] a' p'
    by blast
  ultimately show ?thesis using a p a' p' new by (simp add: example_fields)
qed


end
